theory Spec2Isabelle
  imports Main
begin

section \<open>JavaScript strings and phone numbers (routes/bookings.ts)\<close>

text \<open>
  A JavaScript string is a sequence of UTF-16 code units, and \<^verbatim>\<open>length\<close>,
  \<^verbatim>\<open>startsWith\<close> and \<^verbatim>\<open>substring\<close> count code units. The phone number is
  therefore a list of code units (natural numbers); \<open>js\<close> turns an ASCII literal into
  such a list. Identifiers, names and the other opaque texts are plain strings.
\<close>

type_synonym code_unit = nat
type_synonym js_string = "code_unit list"

definition js :: "string \<Rightarrow> js_string" where
  "js s = map of_char s"

definition startsWith :: "js_string \<Rightarrow> js_string \<Rightarrow> bool" where
  "startsWith s p = (take (length p) s = p)"

definition substring :: "js_string \<Rightarrow> nat \<Rightarrow> js_string" where
  "substring s n = drop n s"

text \<open>The character class \<^verbatim>\<open>\s\<close> of an ECMAScript regular expression.\<close>

definition is_whitespace :: "code_unit \<Rightarrow> bool" where
  "is_whitespace c =
     (c = 9 \<or> c = 10 \<or> c = 11 \<or> c = 12 \<or> c = 13 \<or> c = 32 \<or> c = 160 \<or> c = 5760
      \<or> (8192 \<le> c \<and> c \<le> 8202) \<or> c = 8232 \<or> c = 8233 \<or> c = 8239 \<or> c = 8287
      \<or> c = 12288 \<or> c = 65279)"

text \<open>The class \<^verbatim>\<open>[\s\-\(\)]\<close>: white space, dash and the two parentheses.\<close>

definition is_separator :: "code_unit \<Rightarrow> bool" where
  "is_separator c = (is_whitespace c \<or> c = 45 \<or> c = 40 \<or> c = 41)"

definition remove_separators :: "js_string \<Rightarrow> js_string" where
  "remove_separators phone = filter (\<lambda>c. \<not> is_separator c) phone"

text \<open>
  The test \<^verbatim>\<open>withoutZero.startsWith('1') || ...('2') || ...('5')\<close>, which the source
  repeats in every branch.
\<close>

definition egyptian_mobile :: "js_string \<Rightarrow> bool" where
  "egyptian_mobile withoutZero =
     (startsWith withoutZero (js ''1'') \<or> startsWith withoutZero (js ''2'')
      \<or> startsWith withoutZero (js ''5''))"

text \<open>
  The block the source repeats after the country code 20: when the rest starts with 0, has
  at least 10 code units and continues with 1, 2 or 5, the zero is dropped. \<open>None\<close>
  stands for falling through to the statement after the block.
\<close>

definition drop_leading_zero :: "js_string \<Rightarrow> js_string option" where
  "drop_leading_zero afterCode =
     (if startsWith afterCode (js ''0'') \<and> 10 \<le> length afterCode
      then (let withoutZero = substring afterCode 1
            in if egyptian_mobile withoutZero then Some (js ''+20'' @ withoutZero) else None)
      else None)"

definition normalizePhoneNumber :: "js_string \<Rightarrow> js_string option" where
  "normalizePhoneNumber phone =
     (if phone = [] then None
      else
        let cleaned = remove_separators phone in
        if startsWith cleaned (js ''+'') then
          (if startsWith cleaned (js ''+20'') then
             (case drop_leading_zero (substring cleaned 3) of
                Some r \<Rightarrow> Some r
              | None \<Rightarrow> Some cleaned)
           else Some cleaned)
        else if startsWith cleaned (js ''00'') then
          (let cleaned2 = js ''+'' @ substring cleaned 2 in
           if startsWith cleaned2 (js ''+20'') then
             (case drop_leading_zero (substring cleaned2 3) of
                Some r \<Rightarrow> Some r
              | None \<Rightarrow> Some cleaned2)
           else Some cleaned2)
        else if startsWith cleaned (js ''0'') \<and> length cleaned = 11
                \<and> egyptian_mobile (substring cleaned 1) then
          Some (js ''+20'' @ substring cleaned 1)
        else if startsWith cleaned (js ''20'') \<and> 12 \<le> length cleaned then
          (case drop_leading_zero (substring cleaned 2) of
             Some r \<Rightarrow> Some r
           | None \<Rightarrow> Some (js ''+'' @ cleaned))
        else if length cleaned = 10 \<and> egyptian_mobile cleaned then
          Some (js ''+20'' @ cleaned)
        else None)"

text \<open>
  The shape of every number that \<open>normalizePhoneNumber\<close> returns: it starts with
  \<open>+\<close>, holds no separator, and after \<open>+20\<close> no zero is left to drop.
\<close>

definition normal_form :: "js_string \<Rightarrow> bool" where
  "normal_form s =
     (startsWith s (js ''+'') \<and> (\<forall>c\<in>set s. \<not> is_separator c)
      \<and> (startsWith s (js ''+20'') \<longrightarrow> drop_leading_zero (substring s 3) = None))"

section \<open>The database tables (supabase/migrations)\<close>

text \<open>
  Each table is the list of its rows, a row is a record of the columns the handlers read
  or write. Identifiers are texts, points in time are milliseconds. \<open>None\<close> is SQL's
  NULL in a row and JavaScript's \<^verbatim>\<open>undefined\<close> in a request.
\<close>

type_synonym uuid = string
type_synonym timestamp = int

record tenant =
  tenant_id :: uuid
  tenant_is_active :: bool

record user =
  user_id :: uuid
  user_tenant_id :: "uuid option"
  role :: string

record service =
  service_id :: uuid
  service_name :: string
  service_name_ar :: "string option"

record service_offer =
  offer_id :: uuid
  offer_service_id :: uuid
  offer_is_active :: bool

record slot =
  slot_id :: uuid
  total_capacity :: int
  remaining_capacity :: int
  available_capacity :: int
  booked_count :: int
  is_available :: bool

record booking_lock =
  lock_id :: uuid
  lock_slot_id :: uuid
  reserved_by_session_id :: string
  reserved_capacity :: int
  lock_acquired_at :: timestamp
  lock_expires_at :: timestamp

record booking =
  booking_id :: uuid
  booking_tenant_id :: uuid
  booking_service_id :: uuid
  booking_slot_id :: uuid
  employee_id :: "uuid option"
  customer_id :: "uuid option"
  customer_name :: string
  customer_phone :: js_string
  customer_email :: "string option"
  visitor_count :: int
  adult_count :: int
  child_count :: int
  total_price :: int
  booking_notes :: "string option"
  status :: string
  payment_status :: string
  booking_offer_id :: "uuid option"
  language :: string
  qr_scanned :: bool
  qr_scanned_at :: "timestamp option"
  qr_scanned_by_user_id :: "uuid option"
  checked_in_at :: "timestamp option"
  checked_in_by_user_id :: "uuid option"
  zoho_invoice_id :: "string option"

text \<open>A row of \<^verbatim>\<open>queue_jobs\<close>; the JSON payload is spread into its three fields.\<close>

record queue_job =
  job_id :: uuid
  job_type :: string
  job_status :: string
  payload_booking_id :: uuid
  payload_tenant_id :: uuid
  payload_attempt :: nat
  attempts :: nat
  created_at :: timestamp
  started_at :: "timestamp option"
  completed_at :: "timestamp option"

record database =
  tenants :: "tenant list"
  users :: "user list"
  services :: "service list"
  service_offers :: "service_offer list"
  slots :: "slot list"
  booking_locks :: "booking_lock list"
  bookings :: "booking list"
  queue_jobs :: "queue_job list"

subsection \<open>Connections and transactions\<close>

text \<open>
  A pooled client is idle or inside a transaction; in a transaction it carries the
  committed database and its own working copy. \<^verbatim>\<open>BEGIN\<close>, \<^verbatim>\<open>ROLLBACK\<close> and
  \<^verbatim>\<open>COMMIT\<close> are the three statements the handlers send. \<open>released\<close> is what the
  other clients see once the client is given back to the pool.
\<close>

datatype connection = Idle database | InTransaction database database

fun query_begin :: "connection \<Rightarrow> connection" where
  "query_begin (Idle d) = InTransaction d d"
| "query_begin (InTransaction c w) = InTransaction c w"

fun query_rollback :: "connection \<Rightarrow> connection" where
  "query_rollback (Idle d) = Idle d"
| "query_rollback (InTransaction c w) = Idle c"

fun query_commit :: "connection \<Rightarrow> connection" where
  "query_commit (Idle d) = Idle d"
| "query_commit (InTransaction c w) = Idle w"

fun visible :: "connection \<Rightarrow> database" where
  "visible (Idle d) = d"
| "visible (InTransaction c w) = w"

fun execute :: "(database \<Rightarrow> database) \<Rightarrow> connection \<Rightarrow> connection" where
  "execute f (Idle d) = Idle (f d)"
| "execute f (InTransaction c w) = InTransaction c (f w)"

fun released :: "connection \<Rightarrow> database" where
  "released (Idle d) = d"
| "released (InTransaction c w) = c"

subsection \<open>Requests and the environment\<close>

text \<open>
  The statements a handler sends, each of which the database may answer with an error
  (a lost connection, a violated constraint, a statement timeout); \<open>throws\<close> of the
  environment says which ones do. The environment also supplies the clock and the
  identifier that \<^verbatim>\<open>gen_random_uuid()\<close> gives to an inserted booking.
\<close>

datatype query_point =
    Q_begin | Q_tenant | Q_lock | Q_slot | Q_offer | Q_insert | Q_delete_lock | Q_commit
  | Q_user | Q_booking | Q_update | Q_release | Q_cleanup

record environment =
  now :: timestamp
  generated_id :: uuid
  throws :: "query_point \<Rightarrow> bool"

text \<open>JavaScript truthiness of an optional text, and the text itself once it is known to be there.\<close>

definition truthy :: "'a list option \<Rightarrow> bool" where
  "truthy x = (case x of None \<Rightarrow> False | Some s \<Rightarrow> s \<noteq> [])"

definition value_of :: "'a list option \<Rightarrow> 'a list" where
  "value_of x = (case x of None \<Rightarrow> [] | Some s \<Rightarrow> s)"

definition or_null :: "'a list option \<Rightarrow> 'a list option" where
  "or_null x = (if truthy x then x else None)"

section \<open>Creating a booking (router.post('/create'))\<close>

record create_request =
  rq_user_id :: "uuid option"
  rq_slot_id :: "uuid option"
  rq_service_id :: "uuid option"
  rq_tenant_id :: "uuid option"
  rq_customer_name :: "string option"
  rq_customer_phone :: "js_string option"
  rq_customer_email :: "string option"
  rq_visitor_count :: "int option"
  rq_adult_count :: "int option"
  rq_child_count :: "int option"
  rq_total_price :: "int option"
  rq_notes :: "string option"
  rq_employee_id :: "uuid option"
  rq_lock_id :: "uuid option"
  rq_session_id :: "string option"
  rq_offer_id :: "uuid option"
  rq_language :: "string option"

text \<open>
  The failures of the handler, one per \<^verbatim>\<open>return res.status(...)\<close>, each sent with its
  HTTP status. \<open>InsufficientCapacity\<close> carries the two numbers of its message.
\<close>

datatype create_error =
    MissingRequiredFields | InvalidPhone | TenantNotFound | TenantDeactivated
  | SessionIdRequired | LockExpiredOrInvalid | SessionMismatch | SlotMismatch
  | QuantityMismatch | SlotNotFound | SlotNotAvailable | InsufficientCapacity int int
  | OfferNotFound | OfferWrongService | HeadCountMismatch | InternalError

datatype create_response = Rejected nat create_error | Created booking

text \<open>A validation step passes, rejects the request, or its query raises an error.\<close>

datatype verdict = Pass | Reject nat create_error | Throw

fun first_failure :: "verdict list \<Rightarrow> verdict" where
  "first_failure [] = Pass"
| "first_failure (Pass # vs) = first_failure vs"
| "first_failure (v # vs) = v"

text \<open>The work handed to \<^verbatim>\<open>process.nextTick\<close> after the commit.\<close>

datatype task = InvoiceTask uuid | TicketTask uuid

record create_result =
  response :: create_response
  state :: database
  scheduled :: "task list"

definition visitor_count_of :: "create_request \<Rightarrow> int" where
  "visitor_count_of r = (case rq_visitor_count r of None \<Rightarrow> 1 | Some n \<Rightarrow> n)"

definition expectedSessionId :: "create_request \<Rightarrow> string option" where
  "expectedSessionId r = (if truthy (rq_user_id r) then rq_user_id r else rq_session_id r)"

definition check_required :: "create_request \<Rightarrow> verdict" where
  "check_required r =
     (if \<not> truthy (rq_slot_id r) \<or> \<not> truthy (rq_service_id r) \<or> \<not> truthy (rq_tenant_id r)
         \<or> \<not> truthy (rq_customer_name r) \<or> \<not> truthy (rq_customer_phone r)
      then Reject 400 MissingRequiredFields else Pass)"

definition normalizedPhone :: "create_request \<Rightarrow> js_string option" where
  "normalizedPhone r = normalizePhoneNumber (value_of (rq_customer_phone r))"

definition check_phone :: "create_request \<Rightarrow> verdict" where
  "check_phone r = (if \<not> truthy (normalizedPhone r) then Reject 400 InvalidPhone else Pass)"

definition check_tenant :: "environment \<Rightarrow> create_request \<Rightarrow> database \<Rightarrow> verdict" where
  "check_tenant e r d =
     (if throws e Q_tenant then Throw
      else case filter (\<lambda>t. tenant_id t = value_of (rq_tenant_id r)) (tenants d) of
             [] \<Rightarrow> Reject 404 TenantNotFound
           | t # _ \<Rightarrow> if tenant_is_active t = False then Reject 403 TenantDeactivated else Pass)"

definition check_lock :: "environment \<Rightarrow> create_request \<Rightarrow> database \<Rightarrow> verdict" where
  "check_lock e r d =
     (if truthy (rq_lock_id r) then
        (if \<not> truthy (expectedSessionId r) then Reject 400 SessionIdRequired
         else if throws e Q_lock then Throw
         else case filter (\<lambda>l. lock_id l = value_of (rq_lock_id r) \<and> lock_expires_at l > now e)
                     (booking_locks d) of
                [] \<Rightarrow> Reject 409 LockExpiredOrInvalid
              | lock # _ \<Rightarrow>
                  if reserved_by_session_id lock \<noteq> value_of (expectedSessionId r)
                  then Reject 403 SessionMismatch
                  else if lock_slot_id lock \<noteq> value_of (rq_slot_id r)
                  then Reject 400 SlotMismatch
                  else if reserved_capacity lock \<noteq> visitor_count_of r
                  then Reject 400 QuantityMismatch
                  else Pass)
      else Pass)"

text \<open>The slot row is read \<^verbatim>\<open>FOR UPDATE\<close>, whether or not a lock was presented.\<close>

definition check_slot :: "environment \<Rightarrow> create_request \<Rightarrow> database \<Rightarrow> verdict" where
  "check_slot e r d =
     (if throws e Q_slot then Throw
      else case filter (\<lambda>s. slot_id s = value_of (rq_slot_id r)) (slots d) of
             [] \<Rightarrow> Reject 404 SlotNotFound
           | slot # _ \<Rightarrow>
               if \<not> is_available slot then Reject 409 SlotNotAvailable
               else if available_capacity slot < visitor_count_of r
               then Reject 409 (InsufficientCapacity (available_capacity slot) (visitor_count_of r))
               else Pass)"

definition check_offer :: "environment \<Rightarrow> create_request \<Rightarrow> database \<Rightarrow> verdict" where
  "check_offer e r d =
     (if truthy (rq_offer_id r) then
        (if throws e Q_offer then Throw
         else case filter (\<lambda>offer. offer_id offer = value_of (rq_offer_id r) \<and> offer_is_active offer)
                     (service_offers d) of
                [] \<Rightarrow> Reject 404 OfferNotFound
              | offer # _ \<Rightarrow>
                  if offer_service_id offer \<noteq> value_of (rq_service_id r)
                  then Reject 400 OfferWrongService else Pass)
      else Pass)"

definition finalAdultCount :: "create_request \<Rightarrow> int" where
  "finalAdultCount r = (case rq_adult_count r of None \<Rightarrow> visitor_count_of r | Some a \<Rightarrow> a)"

definition finalChildCount :: "create_request \<Rightarrow> int" where
  "finalChildCount r = (case rq_child_count r of None \<Rightarrow> 0 | Some c \<Rightarrow> c)"

definition check_head_count :: "create_request \<Rightarrow> verdict" where
  "check_head_count r =
     (if finalAdultCount r + finalChildCount r \<noteq> visitor_count_of r
      then Reject 400 HeadCountMismatch else Pass)"

definition validLanguage :: "create_request \<Rightarrow> string" where
  "validLanguage r =
     (case rq_language r of
        None \<Rightarrow> ''en''
      | Some l \<Rightarrow> if l = ''ar'' \<or> l = ''en'' then l else ''en'')"

text \<open>
  The inserted row: the seventeen values of the \<^verbatim>\<open>INSERT\<close> and the column defaults of
  the schema for the rest.
\<close>

definition new_booking :: "environment \<Rightarrow> create_request \<Rightarrow> booking" where
  "new_booking e r =
     \<lparr> booking_id = generated_id e,
       booking_tenant_id = value_of (rq_tenant_id r),
       booking_service_id = value_of (rq_service_id r),
       booking_slot_id = value_of (rq_slot_id r),
       employee_id = or_null (rq_employee_id r),
       customer_id = or_null (rq_user_id r),
       customer_name = value_of (rq_customer_name r),
       customer_phone = value_of (normalizedPhone r),
       customer_email = or_null (rq_customer_email r),
       visitor_count = visitor_count_of r,
       adult_count = finalAdultCount r,
       child_count = finalChildCount r,
       total_price = (case rq_total_price r of None \<Rightarrow> 0 | Some p \<Rightarrow> p),
       booking_notes = or_null (rq_notes r),
       status = ''confirmed'',
       payment_status = ''unpaid'',
       booking_offer_id = or_null (rq_offer_id r),
       language = validLanguage r,
       qr_scanned = False,
       qr_scanned_at = None,
       qr_scanned_by_user_id = None,
       checked_in_at = None,
       checked_in_by_user_id = None,
       zoho_invoice_id = None \<rparr>"

text \<open>
  The \<^verbatim>\<open>INSERT\<close> raises when the environment says so, and when the row breaks a
  \<^verbatim>\<open>NOT NULL\<close> or \<^verbatim>\<open>CHECK\<close> constraint of the \<^verbatim>\<open>bookings\<close> table.
\<close>

definition insert_raises :: "environment \<Rightarrow> create_request \<Rightarrow> bool" where
  "insert_raises e r =
     (throws e Q_insert \<or> rq_total_price r = None \<or> total_price (new_booking e r) < 0
      \<or> visitor_count (new_booking e r) \<le> 0 \<or> adult_count (new_booking e r) < 0
      \<or> child_count (new_booking e r) < 0)"

definition insert_booking :: "booking \<Rightarrow> database \<Rightarrow> database" where
  "insert_booking row d = d\<lparr>bookings := bookings d @ [row]\<rparr>"

definition delete_lock :: "uuid \<Rightarrow> database \<Rightarrow> database" where
  "delete_lock lid d = d\<lparr>booking_locks := filter (\<lambda>l. lock_id l \<noteq> lid) (booking_locks d)\<rparr>"

text \<open>An early return after \<^verbatim>\<open>ROLLBACK\<close>, and the \<^verbatim>\<open>catch\<close> block, which rolls back too.\<close>

definition rejected :: "nat \<Rightarrow> create_error \<Rightarrow> connection \<Rightarrow> create_result" where
  "rejected code err c =
     \<lparr>response = Rejected code err, state = released (query_rollback c), scheduled = []\<rparr>"

definition caught :: "connection \<Rightarrow> create_result" where
  "caught c =
     \<lparr>response = Rejected 500 InternalError, state = released (query_rollback c), scheduled = []\<rparr>"

definition after_commit :: "create_request \<Rightarrow> booking \<Rightarrow> task list" where
  "after_commit r row =
     (if truthy (normalizedPhone r) \<or> truthy (rq_customer_phone r) \<or> truthy (rq_customer_email r)
      then [InvoiceTask (booking_id row)] else [])
     @ [TicketTask (booking_id row)]"

definition validations :: "environment \<Rightarrow> create_request \<Rightarrow> database \<Rightarrow> verdict" where
  "validations e r d =
     first_failure
       [check_required r, check_phone r, check_tenant e r d, check_lock e r d,
        check_slot e r d, check_offer e r d, check_head_count r]"

definition consume_lock :: "create_request \<Rightarrow> connection \<Rightarrow> connection" where
  "consume_lock r c =
     (if truthy (rq_lock_id r) then execute (delete_lock (value_of (rq_lock_id r))) c else c)"

definition createBooking :: "environment \<Rightarrow> create_request \<Rightarrow> database \<Rightarrow> create_result" where
  "createBooking e r d =
     (if throws e Q_begin then caught (Idle d)
      else
        let c = query_begin (Idle d) in
        case validations e r (visible c) of
          Reject code err \<Rightarrow> rejected code err c
        | Throw \<Rightarrow> caught c
        | Pass \<Rightarrow>
            if insert_raises e r then caught c
            else
              let row = new_booking e r;
                  c1 = execute (insert_booking row) c
              in if truthy (rq_lock_id r) \<and> throws e Q_delete_lock then caught c1
                 else
                   let c2 = consume_lock r c1
                   in if throws e Q_commit then caught c2
                      else \<lparr>response = Created row, state = released (query_commit c2),
                             scheduled = after_commit r row\<rparr>)"

text \<open>
  The invoice task: \<^verbatim>\<open>zohoService.generateReceipt\<close> is an external collaborator that
  succeeds with an invoice id, reports a failure, or raises. The whole body of the task is
  inside \<^verbatim>\<open>try\<close>/\<^verbatim>\<open>catch\<close>; \<open>Uncaught\<close> would be an error that leaves the task.
\<close>

datatype receipt_result = Succeeded string | Failed string | Raised string

datatype task_outcome = InvoiceCreated string | InvoiceFailed string | InvoiceErrorLogged string
  | Uncaught string

definition run_invoice_task :: "receipt_result \<Rightarrow> task_outcome" where
  "run_invoice_task invoiceResult =
     (case invoiceResult of
        Succeeded invoiceId \<Rightarrow> InvoiceCreated invoiceId
      | Failed err \<Rightarrow> InvoiceFailed err
      | Raised msg \<Rightarrow> InvoiceErrorLogged msg)"

section \<open>Releasing a lock (router.post('/lock/:lock_id/release'))\<close>

record release_request =
  rl_user_id :: "uuid option"
  rl_lock_id :: uuid
  rl_session_id :: "string option"

datatype release_response = LockReleased | ReleaseRejected nat

definition release_session :: "release_request \<Rightarrow> string option" where
  "release_session r = (if truthy (rl_user_id r) then rl_user_id r else rl_session_id r)"

definition owned_by :: "release_request \<Rightarrow> booking_lock \<Rightarrow> bool" where
  "owned_by r l =
     (lock_id l = rl_lock_id r \<and> reserved_by_session_id l = value_of (release_session r))"

text \<open>
  One \<^verbatim>\<open>DELETE ... WHERE id = $1 AND reserved_by_session_id = $2 RETURNING id\<close>;
  400 without a session, 404 when no row was deleted, 500 when the statement raises.
\<close>

definition releaseLock ::
  "environment \<Rightarrow> release_request \<Rightarrow> database \<Rightarrow> release_response \<times> database" where
  "releaseLock e r d =
     (if \<not> truthy (release_session r) then (ReleaseRejected 400, d)
      else if throws e Q_release then (ReleaseRejected 500, d)
      else
        let result = filter (owned_by r) (booking_locks d);
            d' = d\<lparr>booking_locks := filter (\<lambda>l. \<not> owned_by r l) (booking_locks d)\<rparr>
        in if result = [] then (ReleaseRejected 404, d') else (LockReleased, d'))"

section \<open>The lock cleanup job (jobs/cleanupLocks.ts)\<close>

text \<open>
  One \<^verbatim>\<open>DELETE FROM booking_locks WHERE lock_expires_at <= NOW() RETURNING ...\<close>; the
  returned rows are logged. An error of the statement is logged and the cycle ends.
\<close>

definition expired :: "timestamp \<Rightarrow> booking_lock \<Rightarrow> bool" where
  "expired t l = (lock_expires_at l \<le> t)"

definition cleanupExpiredLocks :: "environment \<Rightarrow> database \<Rightarrow> booking_lock list \<times> database" where
  "cleanupExpiredLocks e d =
     (if throws e Q_cleanup then ([], d)
      else (filter (expired (now e)) (booking_locks d),
            d\<lparr>booking_locks := filter (\<lambda>l. \<not> expired (now e) l) (booking_locks d)\<rparr>))"

text \<open>
  Two readings of a slot's capacity: the column of the slot row, and the capacity that the
  lock rows of the slot hold.
\<close>

definition slot_available :: "database \<Rightarrow> uuid \<Rightarrow> int option" where
  "slot_available d sid =
     (case filter (\<lambda>s. slot_id s = sid) (slots d) of
        [] \<Rightarrow> None
      | s # _ \<Rightarrow> Some (available_capacity s))"

definition held_capacity :: "booking_lock list \<Rightarrow> uuid \<Rightarrow> int" where
  "held_capacity ls sid = sum_list (map reserved_capacity (filter (\<lambda>l. lock_slot_id l = sid) ls))"

section \<open>Checking in by QR code (router.post('/validate-qr'))\<close>

record qr_request =
  qr_user_id :: "uuid option"
  qr_booking_id :: "uuid option"

datatype qr_error =
    BookingIdRequired | AuthenticationRequired | UserNotFound | RoleNotAllowed
  | BookingNotFound | WrongTenant | AlreadyScanned | QrInternalError

datatype qr_response = QrRejected nat qr_error | QrValidated uuid

text \<open>The rows of \<^verbatim>\<open>bookings b JOIN services s JOIN slots ts WHERE b.id = $1\<close>.\<close>

definition joined_booking :: "database \<Rightarrow> uuid \<Rightarrow> booking list" where
  "joined_booking d bid =
     filter (\<lambda>b. booking_id b = bid
                \<and> list_ex (\<lambda>s. service_id s = booking_service_id b) (services d)
                \<and> list_ex (\<lambda>ts. slot_id ts = booking_slot_id b) (slots d))
       (bookings d)"

definition mark_scanned :: "timestamp \<Rightarrow> uuid \<Rightarrow> booking \<Rightarrow> booking" where
  "mark_scanned t userId b =
     b\<lparr> qr_scanned := True, qr_scanned_at := Some t, qr_scanned_by_user_id := Some userId,
        status := ''checked_in'', checked_in_at := Some t, checked_in_by_user_id := Some userId \<rparr>"

definition update_booking :: "uuid \<Rightarrow> (booking \<Rightarrow> booking) \<Rightarrow> database \<Rightarrow> database" where
  "update_booking bid f d =
     d\<lparr>bookings := map (\<lambda>b. if booking_id b = bid then f b else b) (bookings d)\<rparr>"

text \<open>
  The handler sends three statements through the pool, each on its own: the
  \<^verbatim>\<open>SELECT\<close> of the user, the \<^verbatim>\<open>SELECT\<close> of the booking with its joins, and the
  \<^verbatim>\<open>UPDATE\<close>. It opens no transaction and takes no row lock, and the \<^verbatim>\<open>UPDATE\<close>
  has no condition on \<^verbatim>\<open>qr_scanned\<close>. Statements of other requests may therefore run
  between two statements of one request. A request in progress stands before one of its
  three statements, holding the row it has read last, or has responded.
\<close>

datatype qr_progress =
    BeforeUserQuery
  | BeforeBookingQuery user
  | BeforeUpdate booking
  | Responded qr_response

text \<open>The two checks of the request body that come before the first statement.\<close>

definition qr_begin :: "qr_request \<Rightarrow> qr_progress" where
  "qr_begin r =
     (if \<not> truthy (qr_booking_id r) then Responded (QrRejected 400 BookingIdRequired)
      else if \<not> truthy (qr_user_id r) then Responded (QrRejected 401 AuthenticationRequired)
      else BeforeUserQuery)"

text \<open>
  One statement of a request, run on the database as it is at that moment, with the code
  that follows it up to the next statement or the response.
\<close>

fun qr_statement ::
  "environment \<Rightarrow> qr_request \<Rightarrow> qr_progress \<Rightarrow> database \<Rightarrow> qr_progress \<times> database" where
  "qr_statement e r BeforeUserQuery d =
     (if throws e Q_user then (Responded (QrRejected 500 QrInternalError), d)
      else case filter (\<lambda>u. user_id u = value_of (qr_user_id r)) (users d) of
        [] \<Rightarrow> (Responded (QrRejected 404 UserNotFound), d)
      | user # _ \<Rightarrow>
          if role user \<noteq> ''cashier'' \<and> role user \<noteq> ''receptionist'' \<and> role user \<noteq> ''tenant_admin''
          then (Responded (QrRejected 403 RoleNotAllowed), d)
          else (BeforeBookingQuery user, d))"
| "qr_statement e r (BeforeBookingQuery user) d =
     (if throws e Q_booking then (Responded (QrRejected 500 QrInternalError), d)
      else case joined_booking d (value_of (qr_booking_id r)) of
        [] \<Rightarrow> (Responded (QrRejected 404 BookingNotFound), d)
      | booking # _ \<Rightarrow>
          if Some (booking_tenant_id booking) \<noteq> user_tenant_id user
          then (Responded (QrRejected 403 WrongTenant), d)
          else if qr_scanned booking then (Responded (QrRejected 409 AlreadyScanned), d)
          else (BeforeUpdate booking, d))"
| "qr_statement e r (BeforeUpdate booking) d =
     (if throws e Q_update then (Responded (QrRejected 500 QrInternalError), d)
      else (Responded (QrValidated (booking_id booking)),
            update_booking (value_of (qr_booking_id r))
              (mark_scanned (now e) (value_of (qr_user_id r))) d))"
| "qr_statement e r (Responded resp) d = (Responded resp, d)"

text \<open>
  A request served alone: its three statements run with nothing in between. After them
  the request has always responded; the last case is never taken.
\<close>

definition validate_qr :: "environment \<Rightarrow> qr_request \<Rightarrow> database \<Rightarrow> qr_response \<times> database" where
  "validate_qr e r d =
     (case qr_statement e r (qr_begin r) d of (p1, d1) \<Rightarrow>
      case qr_statement e r p1 d1 of (p2, d2) \<Rightarrow>
      case qr_statement e r p2 d2 of (p3, d3) \<Rightarrow>
        (case p3 of Responded resp \<Rightarrow> resp | _ \<Rightarrow> QrRejected 500 QrInternalError, d3))"

text \<open>
  Several requests at once: each client is a request with its environment and its
  progress, and a schedule names, statement by statement, the client whose next
  statement runs.
\<close>

type_synonym qr_client = "environment \<times> qr_request \<times> qr_progress"

definition qr_client :: "environment \<Rightarrow> qr_request \<Rightarrow> qr_client" where
  "qr_client e r = (e, r, qr_begin r)"

definition progress_of :: "qr_client list \<Rightarrow> qr_progress list" where
  "progress_of cs = map (snd \<circ> snd) cs"

fun run_schedule :: "nat list \<Rightarrow> qr_client list \<Rightarrow> database \<Rightarrow> qr_client list \<times> database" where
  "run_schedule [] cs d = (cs, d)"
| "run_schedule (i # rest) cs d =
     (if i < length cs
      then (case cs ! i of (e, r, p) \<Rightarrow>
              (case qr_statement e r p d of (p', d') \<Rightarrow>
                 run_schedule rest (cs[i := (e, r, p')]) d'))
      else run_schedule rest cs d)"

section \<open>The receipt worker and its retry queue (jobs/zohoReceiptWorker)\<close>

text \<open>
  The constants of the receipt worker. Delays are in milliseconds. The attempt counter is a
  natural number; on such inputs the floating-point expression
  \<^verbatim>\<open>Math.min(INITIAL_DELAY * Math.pow(2, attempt), MAX_DELAY)\<close> is exact
  (an overflow to Infinity is cut back to \<^verbatim>\<open>MAX_DELAY\<close> by the minimum).
\<close>

definition MAX_RETRIES :: nat where
  "MAX_RETRIES = 3"

definition INITIAL_DELAY :: nat where
  "INITIAL_DELAY = 1000"

definition MAX_DELAY :: nat where
  "MAX_DELAY = 60000"

definition calculateDelay :: "nat \<Rightarrow> nat" where
  "calculateDelay attempt = min (INITIAL_DELAY * 2 ^ attempt) MAX_DELAY"

text \<open>
  \<^verbatim>\<open>UPDATE queue_jobs SET ... WHERE id = $1\<close>, and the four updates of the worker.
\<close>

definition update_job :: "uuid \<Rightarrow> (queue_job \<Rightarrow> queue_job) \<Rightarrow> database \<Rightarrow> database" where
  "update_job jid f d =
     d\<lparr>queue_jobs := map (\<lambda>j. if job_id j = jid then f j else j) (queue_jobs d)\<rparr>"

definition set_processing :: "timestamp \<Rightarrow> queue_job \<Rightarrow> queue_job" where
  "set_processing t j = j\<lparr>job_status := ''processing'', started_at := Some t\<rparr>"

definition set_completed :: "timestamp \<Rightarrow> queue_job \<Rightarrow> queue_job" where
  "set_completed t j = j\<lparr>job_status := ''completed'', completed_at := Some t\<rparr>"

definition set_failed :: "timestamp \<Rightarrow> queue_job \<Rightarrow> queue_job" where
  "set_failed t j = j\<lparr>job_status := ''failed'', completed_at := Some t\<rparr>"

definition set_retry :: "nat \<Rightarrow> queue_job \<Rightarrow> queue_job" where
  "set_retry nextAttempt j =
     j\<lparr>job_status := ''pending'', attempts := nextAttempt, payload_attempt := nextAttempt\<rparr>"

text \<open>
  The \<^verbatim>\<open>catch\<close> block of \<^verbatim>\<open>processReceiptJob\<close>. The attempt counter is the one of the
  payload the job was selected with.
\<close>

definition on_error :: "timestamp \<Rightarrow> queue_job \<Rightarrow> database \<Rightarrow> database" where
  "on_error t job d =
     (let nextAttempt = payload_attempt job + 1
      in if nextAttempt \<ge> MAX_RETRIES then update_job (job_id job) (set_failed t) d
         else update_job (job_id job) (set_retry nextAttempt) d)"

text \<open>
  \<open>generateReceipt\<close> is the invoicing collaborator, a parameter. The result is the
  \<^verbatim>\<open>success\<close> flag and the database after the job's updates. The queries of the worker
  are taken to execute.
\<close>

definition processReceiptJob ::
  "timestamp \<Rightarrow> (uuid \<Rightarrow> receipt_result) \<Rightarrow> queue_job \<Rightarrow> database \<Rightarrow> bool \<times> database" where
  "processReceiptJob t generateReceipt job d =
     (case filter (\<lambda>b. booking_id b = payload_booking_id job) (bookings d) of
        [] \<Rightarrow> (False, on_error t job d)
      | booking # _ \<Rightarrow>
          if truthy (zoho_invoice_id booking)
          then (True, update_job (job_id job) (set_completed t) d)
          else if payment_status booking \<noteq> ''paid''
          then (False, update_job (job_id job) (set_failed t) d)
          else (case generateReceipt (payload_booking_id job) of
                  Succeeded _ \<Rightarrow> (True, update_job (job_id job) (set_completed t) d)
                | Failed _ \<Rightarrow> (False, on_error t job d)
                | Raised _ \<Rightarrow> (False, on_error t job d)))"

text \<open>
  The selection of a sweep: pending receipt jobs never started or started more than five
  minutes ago, the ten oldest.
\<close>

definition ready :: "timestamp \<Rightarrow> queue_job \<Rightarrow> bool" where
  "ready t j =
     (job_type j = ''zoho_receipt'' \<and> job_status j = ''pending''
      \<and> (case started_at j of None \<Rightarrow> True | Some s \<Rightarrow> s < t - 300000))"

definition pending_jobs :: "timestamp \<Rightarrow> database \<Rightarrow> queue_job list" where
  "pending_jobs t d = take 10 (sort_key created_at (filter (ready t) (queue_jobs d)))"

definition run_job ::
  "timestamp \<Rightarrow> (uuid \<Rightarrow> receipt_result) \<Rightarrow> queue_job \<Rightarrow> database \<Rightarrow> database" where
  "run_job t generateReceipt job d =
     snd (processReceiptJob t generateReceipt job (update_job (job_id job) (set_processing t) d))"

text \<open>
  A sweep returns the identifiers of the jobs it processed (the worker logs each of them)
  and the database after them. The selected jobs update different rows, so the order in
  which their promises run does not matter; the model takes them in turn.
\<close>

definition processZohoReceiptJobs ::
  "timestamp \<Rightarrow> (uuid \<Rightarrow> receipt_result) \<Rightarrow> database \<Rightarrow> uuid list \<times> database" where
  "processZohoReceiptJobs t generateReceipt d =
     (let jobs = pending_jobs t d
      in (map job_id jobs, fold (run_job t generateReceipt) jobs d))"


text \<open>
  The worker is started once and then sweeps on every tick of its interval; a run of the
  worker is the list of its sweeps, each with its time and the behaviour of the invoicing
  collaborator at that time. The result collects the identifiers of the processed jobs.
\<close>

fun run_sweeps ::
  "(timestamp \<times> (uuid \<Rightarrow> receipt_result)) list \<Rightarrow> database \<Rightarrow> uuid list \<times> database" where
  "run_sweeps [] d = ([], d)"
| "run_sweeps ((t, generateReceipt) # rest) d =
     (let (ids, d1) = processZohoReceiptJobs t generateReceipt d;
          (ids', d2) = run_sweeps rest d1
      in (ids @ ids', d2))"

text \<open>The rows of the job table with a given identifier.\<close>

definition job_rows :: "database \<Rightarrow> uuid \<Rightarrow> queue_job list" where
  "job_rows d jid = filter (\<lambda>k. job_id k = jid) (queue_jobs d)"

text \<open>
  The side effect of a job fails: the booking is paid and has no invoice yet, so that the
  collaborator is called, and the call does not succeed; or the booking does not exist,
  which raises an error before the call.
\<close>

definition attempt_fails :: "(uuid \<Rightarrow> receipt_result) \<Rightarrow> database \<Rightarrow> uuid \<Rightarrow> bool" where
  "attempt_fails generateReceipt d bid =
     (case filter (\<lambda>b. booking_id b = bid) (bookings d) of
        [] \<Rightarrow> True
      | booking # _ \<Rightarrow>
          \<not> truthy (zoho_invoice_id booking) \<and> payment_status booking = ''paid''
          \<and> (case generateReceipt bid of Succeeded _ \<Rightarrow> False | Failed _ \<Rightarrow> True | Raised _ \<Rightarrow> True))"

text \<open>What a failed attempt makes of the row of its job.\<close>

definition failed_attempt :: "timestamp \<Rightarrow> queue_job \<Rightarrow> queue_job \<Rightarrow> queue_job" where
  "failed_attempt t job k =
     (if payload_attempt job + 1 \<ge> MAX_RETRIES then set_failed t (set_processing t k)
      else set_retry (payload_attempt job + 1) (set_processing t k))"

section \<open>Example data\<close>

text \<open>
  A small database for the concrete instances below: one active tenant, one service, one
  slot of capacity 2, a lock of session \<open>A\<close> for both places until time 120000, one
  cashier, one paid booking waiting for its receipt, and the receipt job of that booking.
  In \<open>held_db\<close> the slot row shows no available place.
\<close>

definition example_slot :: slot where
  "example_slot =
     \<lparr>slot_id = ''S1'', total_capacity = 2, remaining_capacity = 2, available_capacity = 2,
      booked_count = 0, is_available = True\<rparr>"

definition example_lock :: booking_lock where
  "example_lock =
     \<lparr>lock_id = ''L1'', lock_slot_id = ''S1'', reserved_by_session_id = ''A'',
      reserved_capacity = 2, lock_acquired_at = 0, lock_expires_at = 120000\<rparr>"

definition example_booking :: booking where
  "example_booking =
     \<lparr> booking_id = ''B1'', booking_tenant_id = ''T1'', booking_service_id = ''V1'',
       booking_slot_id = ''S1'', employee_id = None, customer_id = None,
       customer_name = ''Omar'', customer_phone = js ''+201032560826'', customer_email = None,
       visitor_count = 1, adult_count = 1, child_count = 0, total_price = 50,
       booking_notes = None, status = ''confirmed'', payment_status = ''paid'',
       booking_offer_id = None, language = ''en'', qr_scanned = False, qr_scanned_at = None,
       qr_scanned_by_user_id = None, checked_in_at = None, checked_in_by_user_id = None,
       zoho_invoice_id = None \<rparr>"

definition example_job :: queue_job where
  "example_job =
     \<lparr>job_id = ''J1'', job_type = ''zoho_receipt'', job_status = ''pending'',
      payload_booking_id = ''B1'', payload_tenant_id = ''T1'', payload_attempt = 0,
      attempts = 0, created_at = 0, started_at = None, completed_at = None\<rparr>"

definition example_db :: database where
  "example_db =
     \<lparr> tenants = [\<lparr>tenant_id = ''T1'', tenant_is_active = True\<rparr>],
       users = [\<lparr>user_id = ''U1'', user_tenant_id = Some ''T1'', role = ''cashier''\<rparr>],
       services = [\<lparr>service_id = ''V1'', service_name = ''Tour'', service_name_ar = None\<rparr>],
       service_offers = [],
       slots = [example_slot],
       booking_locks = [example_lock],
       bookings = [example_booking],
       queue_jobs = [example_job] \<rparr>"

definition held_db :: database where
  "held_db = example_db\<lparr>slots := [example_slot\<lparr>available_capacity := 0\<rparr>]\<rparr>"

definition example_env :: environment where
  "example_env = \<lparr>now = 60000, generated_id = ''B2'', throws = (\<lambda>q. False)\<rparr>"

text \<open>Session \<open>A\<close> books the two places it holds with lock \<open>L1\<close>.\<close>

definition example_request :: create_request where
  "example_request =
     \<lparr> rq_user_id = None, rq_slot_id = Some ''S1'', rq_service_id = Some ''V1'',
       rq_tenant_id = Some ''T1'', rq_customer_name = Some ''Ann'',
       rq_customer_phone = Some (js ''01032560826''), rq_customer_email = None,
       rq_visitor_count = Some 2, rq_adult_count = Some 1, rq_child_count = Some 1,
       rq_total_price = Some 100, rq_notes = None, rq_employee_id = None,
       rq_lock_id = Some ''L1'', rq_session_id = Some ''A'', rq_offer_id = None,
       rq_language = None \<rparr>"

text \<open>An environment in which the \<^verbatim>\<open>COMMIT\<close> raises an error.\<close>

definition commit_fails :: environment where
  "commit_fails = example_env\<lparr>throws := (\<lambda>q. q = Q_commit)\<rparr>"

text \<open>Session \<open>A\<close> gives its lock back.\<close>

definition example_release :: release_request where
  "example_release = \<lparr>rl_user_id = None, rl_lock_id = ''L1'', rl_session_id = Some ''A''\<rparr>"

text \<open>Cashier \<open>U1\<close> scans booking \<open>B1\<close>; \<open>scanned_db\<close> is the database after the scan at time 60000.\<close>

definition example_qr :: qr_request where
  "example_qr = \<lparr>qr_user_id = Some ''U1'', qr_booking_id = Some ''B1''\<rparr>"

definition scanned_db :: database where
  "scanned_db = example_db\<lparr>bookings := [mark_scanned 60000 ''U1'' example_booking]\<rparr>"

text \<open>Four sweeps, 400 seconds apart, during which the invoicing collaborator is down.\<close>

definition collaborator_down :: "uuid \<Rightarrow> receipt_result" where
  "collaborator_down bid = Failed ''unreachable''"

definition example_runs :: "(timestamp \<times> (uuid \<Rightarrow> receipt_result)) list" where
  "example_runs =
     [(0, collaborator_down), (400000, collaborator_down), (800000, collaborator_down),
      (1200000, collaborator_down)]"

text \<open>
  Two requests to scan booking \<open>B1\<close>, sent almost together; the second one reaches its
  \<^verbatim>\<open>UPDATE\<close> at time 60001.
\<close>

definition two_scans :: "qr_client list" where
  "two_scans =
     [qr_client example_env example_qr, qr_client (example_env\<lparr>now := 60001\<rparr>) example_qr]"

section \<open>Properties of the backoff\<close>

lemma calculateDelay_mono: "a \<le> b \<Longrightarrow> calculateDelay a \<le> calculateDelay b"
proof -
  assume "a \<le> b"
  then have "(2::nat) ^ a \<le> 2 ^ b"
    by (simp add: power_increasing)
  then have "INITIAL_DELAY * 2 ^ a \<le> INITIAL_DELAY * 2 ^ b"
    by (rule mult_le_mono2)
  then show ?thesis
    unfolding calculateDelay_def by (rule min.mono) simp
qed

text \<open>
  Claim C8. The delay computed for attempt counter \<open>a\<close> is
  \<open>min (initial_delay * 2 ^ a) max_delay\<close> with an initial delay of 1000 ms and a cap of
  60000 ms; the delays of consecutive attempt counters never decrease, and no delay
  exceeds the cap.
\<close>

theorem calculateDelay_backoff:
  "calculateDelay a = min (1000 * 2 ^ a) 60000
   \<and> INITIAL_DELAY = 1000 \<and> MAX_DELAY = 60000
   \<and> calculateDelay a \<le> calculateDelay (Suc a)
   \<and> calculateDelay a \<le> calculateDelay (a + k)
   \<and> calculateDelay a \<le> MAX_DELAY"
proof -
  have "calculateDelay a \<le> calculateDelay (Suc a)"
    by (rule calculateDelay_mono) simp
  moreover have "calculateDelay a \<le> calculateDelay (a + k)"
    by (rule calculateDelay_mono) simp
  moreover have "calculateDelay a \<le> MAX_DELAY"
    unfolding calculateDelay_def by simp
  moreover have "calculateDelay a = min (1000 * 2 ^ a) 60000"
    unfolding calculateDelay_def INITIAL_DELAY_def MAX_DELAY_def by (rule refl)
  ultimately show ?thesis
    by (simp add: INITIAL_DELAY_def MAX_DELAY_def)
qed

section \<open>Properties of the phone number normalisation\<close>

lemma remove_separators_id: "(\<forall>c\<in>set s. \<not> is_separator c) \<Longrightarrow> remove_separators s = s"
  by (simp add: remove_separators_def)

lemma remove_separators_clean: "c \<in> set (remove_separators s) \<Longrightarrow> \<not> is_separator c"
  by (simp add: remove_separators_def)

lemma normal_form_fixed: "normal_form s \<Longrightarrow> normalizePhoneNumber s = Some s"
proof -
  assume n: "normal_form s"
  then have ne: "s \<noteq> []"
    by (auto simp: normal_form_def startsWith_def js_def)
  from n have cl: "remove_separators s = s"
    by (simp add: normal_form_def remove_separators_id)
  from n have pl: "startsWith s (js ''+'')"
    by (simp add: normal_form_def)
  from n have eg: "startsWith s (js ''+20'') \<Longrightarrow> drop_leading_zero (substring s 3) = None"
    by (simp add: normal_form_def)
  show ?thesis
    using ne cl pl eg by (simp add: normalizePhoneNumber_def)
qed

lemma js_literals_clean:
  "\<not> is_separator 43" "\<not> is_separator 50" "\<not> is_separator 48"
  by (simp_all add: is_separator_def is_whitespace_def)

lemma egyptian_mobile_no_zero: "egyptian_mobile w \<Longrightarrow> drop_leading_zero w = None"
  by (auto simp: egyptian_mobile_def drop_leading_zero_def startsWith_def js_def)

lemma prefixed_mobile_normal:
  "egyptian_mobile w \<Longrightarrow> \<forall>c\<in>set w. \<not> is_separator c \<Longrightarrow> normal_form (js ''+20'' @ w)"
  by (simp add: normal_form_def startsWith_def js_def substring_def js_literals_clean
      egyptian_mobile_no_zero)

lemma drop_leading_zero_normal:
  assumes "drop_leading_zero a = Some r" and "\<forall>c\<in>set a. \<not> is_separator c"
  shows "normal_form r"
proof -
  from assms(1) have m: "egyptian_mobile (substring a 1)" and r: "r = js ''+20'' @ substring a 1"
    by (auto simp: drop_leading_zero_def Let_def split: if_splits)
  from assms(2) have "\<forall>c\<in>set (substring a 1). \<not> is_separator c"
    by (auto simp: substring_def dest: in_set_dropD)
  with m r show ?thesis
    by (simp add: prefixed_mobile_normal)
qed

lemma normalizePhoneNumber_normal:
  assumes "normalizePhoneNumber p = Some s"
  shows "normal_form s"
proof -
  define cleaned where "cleaned = remove_separators p"
  have cl: "\<forall>c\<in>set cleaned. \<not> is_separator c"
    by (simp add: cleaned_def remove_separators_def)
  have cl_drop: "\<forall>c\<in>set (substring cleaned n). \<not> is_separator c" for n
    using cl by (auto simp: substring_def dest: in_set_dropD)
  consider
      (plus) "startsWith cleaned (js ''+'')"
    | (zeros) "\<not> startsWith cleaned (js ''+'')" "startsWith cleaned (js ''00'')"
    | (local) "\<not> startsWith cleaned (js ''+'')" "\<not> startsWith cleaned (js ''00'')"
        "startsWith cleaned (js ''0'') \<and> length cleaned = 11 \<and> egyptian_mobile (substring cleaned 1)"
    | (code) "\<not> startsWith cleaned (js ''+'')" "\<not> startsWith cleaned (js ''00'')"
        "\<not> (startsWith cleaned (js ''0'') \<and> length cleaned = 11 \<and> egyptian_mobile (substring cleaned 1))"
        "startsWith cleaned (js ''20'') \<and> 12 \<le> length cleaned"
    | (bare) "\<not> startsWith cleaned (js ''+'')" "\<not> startsWith cleaned (js ''00'')"
        "\<not> (startsWith cleaned (js ''0'') \<and> length cleaned = 11 \<and> egyptian_mobile (substring cleaned 1))"
        "\<not> (startsWith cleaned (js ''20'') \<and> 12 \<le> length cleaned)"
    by blast
  then show ?thesis
  proof cases
    case plus
    show ?thesis
    proof (cases "startsWith cleaned (js ''+20'')")
      case True
      show ?thesis
      proof (cases "drop_leading_zero (substring cleaned 3)")
        case None
        with assms plus True have "s = cleaned"
          by (simp add: normalizePhoneNumber_def cleaned_def split: if_splits)
        with plus cl None show ?thesis
          by (simp add: normal_form_def)
      next
        case (Some r)
        with assms plus True have "s = r"
          by (simp add: normalizePhoneNumber_def cleaned_def split: if_splits)
        with Some cl_drop show ?thesis
          by (auto intro: drop_leading_zero_normal)
      qed
    next
      case False
      with assms plus have "s = cleaned"
        by (simp add: normalizePhoneNumber_def cleaned_def split: if_splits)
      with plus cl False show ?thesis
        by (simp add: normal_form_def)
    qed
  next
    case zeros
    define cleaned2 where "cleaned2 = js ''+'' @ substring cleaned 2"
    have p2: "startsWith cleaned2 (js ''+'')"
      by (simp add: cleaned2_def startsWith_def js_def)
    have cl2: "\<forall>c\<in>set cleaned2. \<not> is_separator c"
      using cl_drop [of 2] by (auto simp: cleaned2_def js_def js_literals_clean)
    have cl2_drop: "\<forall>c\<in>set (substring cleaned2 3). \<not> is_separator c"
      using cl2 by (auto simp: substring_def dest: in_set_dropD)
    show ?thesis
    proof (cases "startsWith cleaned2 (js ''+20'')")
      case True
      show ?thesis
      proof (cases "drop_leading_zero (substring cleaned2 3)")
        case None
        with assms zeros True have "s = cleaned2"
          by (simp add: normalizePhoneNumber_def cleaned_def cleaned2_def Let_def split: if_splits)
        with p2 cl2 None show ?thesis
          by (simp add: normal_form_def)
      next
        case (Some r)
        with assms zeros True have "s = r"
          by (simp add: normalizePhoneNumber_def cleaned_def cleaned2_def Let_def split: if_splits)
        with Some cl2_drop show ?thesis
          by (auto intro: drop_leading_zero_normal)
      qed
    next
      case False
      with assms zeros have "s = cleaned2"
        by (simp add: normalizePhoneNumber_def cleaned_def cleaned2_def Let_def split: if_splits)
      with p2 cl2 False show ?thesis
        by (simp add: normal_form_def)
    qed
  next
    case local
    with assms have "s = js ''+20'' @ substring cleaned 1"
      by (simp add: normalizePhoneNumber_def cleaned_def Let_def split: if_splits)
    with local cl_drop show ?thesis
      by (simp add: prefixed_mobile_normal)
  next
    case code
    show ?thesis
    proof (cases "drop_leading_zero (substring cleaned 2)")
      case None
      with assms code have s: "s = js ''+'' @ cleaned"
        by (simp add: normalizePhoneNumber_def cleaned_def Let_def split: if_splits)
      from code have "substring s 3 = substring cleaned 2" "startsWith s (js ''+'')"
        by (simp_all add: s substring_def js_def startsWith_def)
      with None cl show ?thesis
        by (simp add: normal_form_def s js_def js_literals_clean)
    next
      case (Some r)
      with assms code have "s = r"
        by (simp add: normalizePhoneNumber_def cleaned_def Let_def split: if_splits)
      with Some cl_drop show ?thesis
        by (auto intro: drop_leading_zero_normal)
    qed
  next
    case bare
    with assms have "s = js ''+20'' @ cleaned" "egyptian_mobile cleaned"
      by (simp_all add: normalizePhoneNumber_def cleaned_def Let_def split: if_splits)
    with cl show ?thesis
      by (simp add: prefixed_mobile_normal)
  qed
qed

text \<open>
  Claim C9. For every input, \<open>normalizePhoneNumber\<close> returns null or a string that
  begins with \<open>+\<close>, and normalising a returned string again returns it unchanged.
\<close>

theorem normalizePhoneNumber_plus_idempotent:
  "(case normalizePhoneNumber phone of
      None \<Rightarrow> True
    | Some s \<Rightarrow> startsWith s (js ''+'') \<and> normalizePhoneNumber s = Some s)"
proof (cases "normalizePhoneNumber phone")
  case None
  then show ?thesis by simp
next
  case (Some s)
  then have nf: "normal_form s"
    by (rule normalizePhoneNumber_normal)
  then have "startsWith s (js ''+'')"
    by (simp add: normal_form_def)
  moreover have "normalizePhoneNumber s = Some s"
    using nf by (rule normal_form_fixed)
  ultimately show ?thesis
    using Some by simp
qed

lemma normalize_example: "normalizePhoneNumber (js ''0020 0103-256(0826)'') = Some (js ''+201032560826'')"
  by (simp add: normalizePhoneNumber_def js_def remove_separators_def is_separator_def
      is_whitespace_def startsWith_def substring_def drop_leading_zero_def egyptian_mobile_def)

theorem normalizePhoneNumber_plus_idempotent_witness:
  "normalizePhoneNumber (js ''0020 0103-256(0826)'') = Some (js ''+201032560826'')
   \<and> startsWith (js ''+201032560826'') (js ''+'')
   \<and> normalizePhoneNumber (js ''+201032560826'') = Some (js ''+201032560826'')"
  using normalizePhoneNumber_plus_idempotent [of "js ''0020 0103-256(0826)''"]
  by (simp add: normalize_example)

section \<open>Properties of the booking transaction\<close>

lemma example_request_fields:
  "rq_user_id example_request = None"
  "rq_slot_id example_request = Some ''S1''"
  "rq_service_id example_request = Some ''V1''"
  "rq_tenant_id example_request = Some ''T1''"
  "rq_customer_name example_request = Some ''Ann''"
  "rq_customer_phone example_request = Some (js ''01032560826'')"
  "rq_customer_email example_request = None"
  "rq_visitor_count example_request = Some 2"
  "rq_adult_count example_request = Some 1"
  "rq_child_count example_request = Some 1"
  "rq_total_price example_request = Some 100"
  "rq_lock_id example_request = Some ''L1''"
  "rq_session_id example_request = Some ''A''"
  "rq_offer_id example_request = None"
  by (simp_all add: example_request_def)

lemma example_db_tables:
  "tenants example_db = [\<lparr>tenant_id = ''T1'', tenant_is_active = True\<rparr>]"
  "slots example_db = [example_slot]"
  "booking_locks example_db = [example_lock]"
  "bookings example_db = [example_booking]"
  "service_offers example_db = []"
  "queue_jobs example_db = [example_job]"
  by (simp_all add: example_db_def)

lemma example_env_fields:
  "now example_env = 60000" "generated_id example_env = ''B2''" "throws example_env q = False"
  by (simp_all add: example_env_def)

lemma example_phone: "normalizedPhone example_request = Some (js ''+201032560826'')"
  by (simp add: normalizedPhone_def example_request_fields value_of_def
      normalizePhoneNumber_def js_def remove_separators_def is_separator_def is_whitespace_def
      startsWith_def substring_def drop_leading_zero_def egyptian_mobile_def)

lemma example_checks:
  "check_required example_request = Pass"
  "check_phone example_request = Pass"
  "check_tenant example_env example_request example_db = Pass"
  "check_lock example_env example_request example_db = Pass"
  "check_slot example_env example_request example_db = Pass"
  "check_offer example_env example_request example_db = Pass"
  "check_head_count example_request = Pass"
  by (simp_all add: check_required_def check_phone_def check_tenant_def check_lock_def
      check_slot_def check_offer_def check_head_count_def truthy_def value_of_def
      expectedSessionId_def visitor_count_of_def finalAdultCount_def finalChildCount_def
      example_phone example_request_fields example_db_tables example_env_fields
      example_slot_def example_lock_def js_def)

lemma example_validations: "validations example_env example_request example_db = Pass"
  by (simp add: validations_def example_checks)

lemma example_insert: "\<not> insert_raises example_env example_request"
  by (simp add: insert_raises_def new_booking_def visitor_count_of_def finalAdultCount_def
      finalChildCount_def example_env_fields example_request_fields)


lemma createBooking_rejects:
  assumes "validations e r d \<noteq> Pass \<or> throws e Q_begin \<or> insert_raises e r
           \<or> (truthy (rq_lock_id r) \<and> throws e Q_delete_lock) \<or> throws e Q_commit"
  shows "(\<exists>code err. response (createBooking e r d) = Rejected code err)
         \<and> state (createBooking e r d) = d \<and> scheduled (createBooking e r d) = []"
proof (cases "validations e r d")
  case Pass
  with assms show ?thesis
    by (auto simp: createBooking_def caught_def consume_lock_def Let_def)
next
  case (Reject code err)
  then show ?thesis
    by (simp add: createBooking_def caught_def rejected_def)
next
  case Throw
  then show ?thesis
    by (simp add: createBooking_def caught_def)
qed

lemma createBooking_commits:
  assumes "validations e r d = Pass" "\<not> throws e Q_begin" "\<not> insert_raises e r"
    "\<not> (truthy (rq_lock_id r) \<and> throws e Q_delete_lock)" "\<not> throws e Q_commit"
  shows "response (createBooking e r d) = Created (new_booking e r)
         \<and> state (createBooking e r d) =
             d\<lparr>bookings := bookings d @ [new_booking e r],
               booking_locks :=
                 (if truthy (rq_lock_id r)
                  then filter (\<lambda>l. lock_id l \<noteq> value_of (rq_lock_id r)) (booking_locks d)
                  else booking_locks d)\<rparr>
         \<and> scheduled (createBooking e r d) = after_commit r (new_booking e r)"
  using assms
  by (auto simp: createBooking_def consume_lock_def insert_booking_def delete_lock_def Let_def)

lemma first_failure_Pass_iff: "first_failure vs = Pass \<longleftrightarrow> (\<forall>v\<in>set vs. v = Pass)"
  by (induction vs rule: first_failure.induct) auto

lemma validations_not_Pass:
  "check_required r \<noteq> Pass \<or> check_phone r \<noteq> Pass \<or> check_tenant e r d \<noteq> Pass
   \<or> check_lock e r d \<noteq> Pass \<or> check_slot e r d \<noteq> Pass \<or> check_offer e r d \<noteq> Pass
   \<or> check_head_count r \<noteq> Pass \<Longrightarrow> validations e r d \<noteq> Pass"
  by (auto simp: validations_def first_failure_Pass_iff)

lemma validations_Pass:
  "check_required r = Pass \<Longrightarrow> check_phone r = Pass \<Longrightarrow> check_tenant e r d = Pass
   \<Longrightarrow> check_lock e r d = Pass \<Longrightarrow> check_slot e r d = Pass \<Longrightarrow> check_offer e r d = Pass
   \<Longrightarrow> check_head_count r = Pass \<Longrightarrow> validations e r d = Pass"
  by (simp add: validations_def)

text \<open>
  Claim C1. When a validation step does not pass (required fields, phone number, tenant,
  lock, slot and capacity, offer, head count) or a statement of the transaction raises an
  error, the request is rejected and the database is what it was: no booking row is
  inserted and no lock row is deleted. Otherwise the request succeeds, and the database
  differs by exactly one appended booking row and by the deletion of the supplied lock, if
  one was supplied.
\<close>

theorem createBooking_all_or_nothing:
  "(if check_required r \<noteq> Pass \<or> check_phone r \<noteq> Pass \<or> check_tenant e r d \<noteq> Pass
       \<or> check_lock e r d \<noteq> Pass \<or> check_slot e r d \<noteq> Pass \<or> check_offer e r d \<noteq> Pass
       \<or> check_head_count r \<noteq> Pass
       \<or> throws e Q_begin \<or> insert_raises e r
       \<or> (truthy (rq_lock_id r) \<and> throws e Q_delete_lock) \<or> throws e Q_commit
    then (\<exists>code err. response (createBooking e r d) = Rejected code err)
         \<and> state (createBooking e r d) = d
    else response (createBooking e r d) = Created (new_booking e r)
         \<and> state (createBooking e r d) =
             d\<lparr>bookings := bookings d @ [new_booking e r],
               booking_locks :=
                 (if truthy (rq_lock_id r)
                  then filter (\<lambda>l. lock_id l \<noteq> value_of (rq_lock_id r)) (booking_locks d)
                  else booking_locks d)\<rparr>)"
proof (cases "check_required r \<noteq> Pass \<or> check_phone r \<noteq> Pass \<or> check_tenant e r d \<noteq> Pass
       \<or> check_lock e r d \<noteq> Pass \<or> check_slot e r d \<noteq> Pass \<or> check_offer e r d \<noteq> Pass
       \<or> check_head_count r \<noteq> Pass
       \<or> throws e Q_begin \<or> insert_raises e r
       \<or> (truthy (rq_lock_id r) \<and> throws e Q_delete_lock) \<or> throws e Q_commit")
  case True
  then have "validations e r d \<noteq> Pass \<or> throws e Q_begin \<or> insert_raises e r
      \<or> (truthy (rq_lock_id r) \<and> throws e Q_delete_lock) \<or> throws e Q_commit"
    using validations_not_Pass [of r e d] by blast
  then have "(\<exists>code err. response (createBooking e r d) = Rejected code err)
         \<and> state (createBooking e r d) = d \<and> scheduled (createBooking e r d) = []"
    by (rule createBooking_rejects)
  with True show ?thesis
    by simp
next
  case False
  then have "validations e r d = Pass" "\<not> throws e Q_begin" "\<not> insert_raises e r"
    "\<not> (truthy (rq_lock_id r) \<and> throws e Q_delete_lock)" "\<not> throws e Q_commit"
    by (simp_all add: validations_Pass)
  from createBooking_commits [OF this] False show ?thesis
    by simp
qed

theorem createBooking_all_or_nothing_witness:
  "response (createBooking example_env example_request example_db)
     = Created (new_booking example_env example_request)
   \<and> state (createBooking example_env example_request example_db)
     = example_db\<lparr>bookings := [example_booking, new_booking example_env example_request],
                  booking_locks := []\<rparr>
   \<and> (\<exists>code err. response (createBooking commit_fails example_request example_db)
                   = Rejected code err)
   \<and> state (createBooking commit_fails example_request example_db) = example_db"
proof -
  have no_throw: "\<not> throws example_env q" for q
    by (simp add: example_env_fields)
  have bad: "throws commit_fails Q_commit"
    by (simp add: commit_fails_def)
  have lock: "truthy (rq_lock_id example_request)" "value_of (rq_lock_id example_request) = ''L1''"
    by (simp_all add: example_request_fields truthy_def value_of_def)
  have l1: "lock_id example_lock = ''L1''"
    by (simp add: example_lock_def)
  from createBooking_all_or_nothing [of example_request example_env example_db]
  have good: "response (createBooking example_env example_request example_db)
       = Created (new_booking example_env example_request)
     \<and> state (createBooking example_env example_request example_db)
       = example_db\<lparr>bookings := [example_booking, new_booking example_env example_request],
                    booking_locks := []\<rparr>"
    by (simp add: example_checks example_insert no_throw lock l1 example_db_tables)
  from createBooking_all_or_nothing [of example_request commit_fails example_db] bad
  have "(\<exists>code err. response (createBooking commit_fails example_request example_db)
                   = Rejected code err)
     \<and> state (createBooking commit_fails example_request example_db) = example_db"
    by simp
  with good show ?thesis
    by simp
qed



lemma held_db_tables:
  "tenants held_db = tenants example_db"
  "booking_locks held_db = booking_locks example_db"
  "slots held_db = [example_slot\<lparr>available_capacity := 0\<rparr>]"
  "bookings held_db = bookings example_db"
  "service_offers held_db = []"
  by (simp_all add: held_db_def example_db_tables)







lemma example_lock_fields:
  "lock_id example_lock = ''L1''" "lock_slot_id example_lock = ''S1''"
  "reserved_by_session_id example_lock = ''A''" "reserved_capacity example_lock = 2"
  "lock_expires_at example_lock = 120000"
  by (simp_all add: example_lock_def)



lemma validations_Pass_phone: "validations e r d = Pass \<Longrightarrow> truthy (normalizedPhone r)"
  by (auto simp: validations_def first_failure_Pass_iff check_phone_def split: if_splits)

lemma createBooking_Created:
  assumes "response (createBooking e r d) = Created row"
  shows "row = new_booking e r"
    and "state (createBooking e r d) =
             d\<lparr>bookings := bookings d @ [new_booking e r],
               booking_locks :=
                 (if truthy (rq_lock_id r)
                  then filter (\<lambda>l. lock_id l \<noteq> value_of (rq_lock_id r)) (booking_locks d)
                  else booking_locks d)\<rparr>"
    and "scheduled (createBooking e r d) = [InvoiceTask (booking_id row), TicketTask (booking_id row)]"
proof -
  have ok: "\<not> (validations e r d \<noteq> Pass \<or> throws e Q_begin \<or> insert_raises e r
           \<or> (truthy (rq_lock_id r) \<and> throws e Q_delete_lock) \<or> throws e Q_commit)"
  proof
    assume "validations e r d \<noteq> Pass \<or> throws e Q_begin \<or> insert_raises e r
           \<or> (truthy (rq_lock_id r) \<and> throws e Q_delete_lock) \<or> throws e Q_commit"
    then have "\<exists>code err. response (createBooking e r d) = Rejected code err"
      by (simp add: createBooking_rejects)
    with assms show False
      by auto
  qed
  then have c: "validations e r d = Pass" "\<not> throws e Q_begin" "\<not> insert_raises e r"
    "\<not> (truthy (rq_lock_id r) \<and> throws e Q_delete_lock)" "\<not> throws e Q_commit"
    by simp_all
  note committed = createBooking_commits [OF c]
  from committed assms show row: "row = new_booking e r"
    by simp
  from committed show "state (createBooking e r d) =
             d\<lparr>bookings := bookings d @ [new_booking e r],
               booking_locks :=
                 (if truthy (rq_lock_id r)
                  then filter (\<lambda>l. lock_id l \<noteq> value_of (rq_lock_id r)) (booking_locks d)
                  else booking_locks d)\<rparr>"
    by simp
  from committed row validations_Pass_phone [OF c(1)]
  show "scheduled (createBooking e r d) = [InvoiceTask (booking_id row), TicketTask (booking_id row)]"
    by (simp add: after_commit_def)
qed

text \<open>
  Claim C5, as the code has it. A committed booking writes no row to the job queue.
  Instead the handler schedules, after the commit, a task that asks the invoicing
  collaborator for the receipt directly (and a second task for the ticket); whatever the
  collaborator answers, success, failure or a raised error, the task ends without an
  uncaught error, so it cannot undo or fail the booking that was already committed and
  answered.
\<close>

theorem createBooking_invoice_dispatch:
  assumes "response (createBooking e r d) = Created row"
  shows "queue_jobs (state (createBooking e r d)) = queue_jobs d
       \<and> row \<in> set (bookings (state (createBooking e r d)))
       \<and> scheduled (createBooking e r d) = [InvoiceTask (booking_id row), TicketTask (booking_id row)]
       \<and> (\<forall>invoiceResult msg. run_invoice_task invoiceResult \<noteq> Uncaught msg)"
proof -
  have "run_invoice_task invoiceResult \<noteq> Uncaught msg" for invoiceResult msg
    by (cases invoiceResult) (simp_all add: run_invoice_task_def)
  with createBooking_Created [OF assms] show ?thesis
    by simp
qed

lemma example_created:
  "response (createBooking example_env example_request example_db)
     = Created (new_booking example_env example_request)"
  using createBooking_commits [of example_env example_request example_db]
    example_validations example_insert
  by (simp add: example_env_fields)

theorem createBooking_invoice_dispatch_witness:
  "queue_jobs (state (createBooking example_env example_request example_db)) = [example_job]
   \<and> scheduled (createBooking example_env example_request example_db)
       = [InvoiceTask ''B2'', TicketTask ''B2'']
   \<and> run_invoice_task (Raised ''timeout'') = InvoiceErrorLogged ''timeout''"
  using createBooking_invoice_dispatch [OF example_created]
  by (simp add: example_db_tables new_booking_def example_env_fields run_invoice_task_def)

text \<open>
  The claim as stated fails: the booking \<open>B2\<close> commits, and the job queue holds the same
  single job as before, which belongs to booking \<open>B1\<close>.
\<close>

theorem createBooking_enqueues_no_job:
  "response (createBooking example_env example_request example_db)
     = Created (new_booking example_env example_request)
   \<and> booking_id (new_booking example_env example_request) = ''B2''
   \<and> queue_jobs (state (createBooking example_env example_request example_db)) = [example_job]
   \<and> payload_booking_id example_job = ''B1''"
proof -
  have "state (createBooking example_env example_request example_db) =
      example_db\<lparr>bookings := bookings example_db @ [new_booking example_env example_request],
        booking_locks :=
          (if truthy (rq_lock_id example_request)
           then filter (\<lambda>l. lock_id l \<noteq> value_of (rq_lock_id example_request))
                  (booking_locks example_db)
           else booking_locks example_db)\<rparr>"
    using example_created by (rule createBooking_Created(2))
  then have "queue_jobs (state (createBooking example_env example_request example_db))
             = [example_job]"
    by (simp add: example_db_tables)
  then show ?thesis
    by (simp add: example_created new_booking_def example_env_fields example_job_def)
qed

section \<open>Properties of lock release and lock cleanup\<close>

lemma held_capacity_split:
  "held_capacity (filter P ls) sid + held_capacity (filter (\<lambda>l. \<not> P l) ls) sid
   = held_capacity ls sid"
  by (induction ls) (simp_all add: held_capacity_def)

lemma slot_available_slots: "slots d' = slots d \<Longrightarrow> slot_available d' sid = slot_available d sid"
  by (simp add: slot_available_def)

text \<open>
  Claim C3, as the code has it. A cleanup cycle whose statement executes deletes exactly
  the lock rows with \<open>lock_expires_at \<le> now\<close> and changes nothing else: no slot row is
  touched, so the available capacity shown by a slot row stays what it was, and the
  capacity held by the lock rows of a slot drops by the reserved capacity of the deleted
  locks of that slot.
\<close>

theorem cleanupExpiredLocks_deletes_expired:
  assumes "\<not> throws e Q_cleanup"
  shows "fst (cleanupExpiredLocks e d) = filter (\<lambda>l. lock_expires_at l \<le> now e) (booking_locks d)
       \<and> snd (cleanupExpiredLocks e d)
           = d\<lparr>booking_locks := filter (\<lambda>l. now e < lock_expires_at l) (booking_locks d)\<rparr>
       \<and> slots (snd (cleanupExpiredLocks e d)) = slots d
       \<and> slot_available (snd (cleanupExpiredLocks e d)) sid = slot_available d sid
       \<and> held_capacity (booking_locks (snd (cleanupExpiredLocks e d))) sid
           = held_capacity (booking_locks d) sid - held_capacity (fst (cleanupExpiredLocks e d)) sid"
proof -
  have not_le: "(\<lambda>l. \<not> lock_expires_at l \<le> now e) = (\<lambda>l. now e < lock_expires_at l)"
    by (simp add: fun_eq_iff not_le)
  have exp: "expired (now e) = (\<lambda>l. lock_expires_at l \<le> now e)"
    by (simp add: fun_eq_iff expired_def)
  have res: "cleanupExpiredLocks e d
      = (filter (\<lambda>l. lock_expires_at l \<le> now e) (booking_locks d),
         d\<lparr>booking_locks := filter (\<lambda>l. now e < lock_expires_at l) (booking_locks d)\<rparr>)"
    using assms by (simp add: cleanupExpiredLocks_def exp not_le)
  have "held_capacity (filter (\<lambda>l. lock_expires_at l \<le> now e) (booking_locks d)) sid
        + held_capacity (filter (\<lambda>l. \<not> lock_expires_at l \<le> now e) (booking_locks d)) sid
        = held_capacity (booking_locks d) sid"
    by (rule held_capacity_split)
  then have "held_capacity (filter (\<lambda>l. now e < lock_expires_at l) (booking_locks d)) sid
      = held_capacity (booking_locks d) sid
        - held_capacity (filter (\<lambda>l. lock_expires_at l \<le> now e) (booking_locks d)) sid"
    by (simp add: not_le)
  then show ?thesis
    by (simp add: res slot_available_def)
qed

lemma held_db_slot: "slot_available held_db ''S1'' = Some 0"
  by (simp add: slot_available_def held_db_tables example_slot_def)

theorem cleanupExpiredLocks_deletes_expired_witness:
  "fst (cleanupExpiredLocks (example_env\<lparr>now := 120000\<rparr>) held_db) = [example_lock]
   \<and> booking_locks (snd (cleanupExpiredLocks (example_env\<lparr>now := 120000\<rparr>) held_db)) = []
   \<and> held_capacity (booking_locks held_db) ''S1'' = 2
   \<and> held_capacity (booking_locks (snd (cleanupExpiredLocks (example_env\<lparr>now := 120000\<rparr>) held_db))) ''S1'' = 0"
proof -
  have "\<not> throws (example_env\<lparr>now := 120000\<rparr>) Q_cleanup"
    by (simp add: example_env_fields)
  from cleanupExpiredLocks_deletes_expired [OF this, of held_db "''S1''"]
  show ?thesis
    by (simp add: held_db_tables example_db_tables example_lock_fields held_capacity_def)
qed

text \<open>
  The claim as stated fails: the expired lock of two places on slot \<open>S1\<close> is deleted,
  and the slot row, which could take the two places back, still shows none available.
\<close>

theorem cleanupExpiredLocks_keeps_slot_capacity:
  "fst (cleanupExpiredLocks (example_env\<lparr>now := 120000\<rparr>) held_db) = [example_lock]
   \<and> lock_slot_id example_lock = ''S1'' \<and> reserved_capacity example_lock = 2
   \<and> slot_available held_db ''S1'' = Some 0
   \<and> slot_available (snd (cleanupExpiredLocks (example_env\<lparr>now := 120000\<rparr>) held_db)) ''S1'' = Some 0"
  by (simp add: cleanupExpiredLocks_def expired_def example_env_fields held_db_tables
      example_db_tables example_lock_fields slot_available_def example_slot_def)

text \<open>
  Claim C4, as the code has it. A release with a session whose statement executes deletes
  exactly the lock rows that match both the lock id and the session; it answers with
  success when such a row existed and with 404 and an unchanged database when none did.
  No slot row is touched: the available capacity shown by a slot row stays what it was,
  and the capacity held by the lock rows of a slot drops by the reserved capacity of the
  deleted lock.
\<close>

theorem releaseLock_owner_only:
  assumes "truthy (release_session r)" and "\<not> throws e Q_release"
    and "owned = filter (\<lambda>l. lock_id l = rl_lock_id r
                               \<and> reserved_by_session_id l = value_of (release_session r))
                   (booking_locks d)"
  shows "snd (releaseLock e r d)
           = d\<lparr>booking_locks :=
                 filter (\<lambda>l. \<not> (lock_id l = rl_lock_id r
                                \<and> reserved_by_session_id l = value_of (release_session r)))
                   (booking_locks d)\<rparr>
       \<and> (owned \<noteq> [] \<longrightarrow> fst (releaseLock e r d) = LockReleased)
       \<and> (owned = [] \<longrightarrow> fst (releaseLock e r d) = ReleaseRejected 404
                           \<and> snd (releaseLock e r d) = d)
       \<and> slots (snd (releaseLock e r d)) = slots d
       \<and> slot_available (snd (releaseLock e r d)) sid = slot_available d sid
       \<and> held_capacity (booking_locks (snd (releaseLock e r d))) sid
           = held_capacity (booking_locks d) sid - held_capacity owned sid"
proof -
  have own: "owned_by r = (\<lambda>l. lock_id l = rl_lock_id r
                               \<and> reserved_by_session_id l = value_of (release_session r))"
    by (simp add: fun_eq_iff owned_by_def)
  have owned: "owned = filter (owned_by r) (booking_locks d)"
    by (simp add: assms(3) own)
  have st: "snd (releaseLock e r d)
      = d\<lparr>booking_locks := filter (\<lambda>l. \<not> owned_by r l) (booking_locks d)\<rparr>"
    using assms(1,2) by (simp add: releaseLock_def Let_def)
  have ok: "fst (releaseLock e r d) = LockReleased" if "owned \<noteq> []"
    using that assms(1,2) owned by (simp add: releaseLock_def Let_def)
  have none: "fst (releaseLock e r d) = ReleaseRejected 404 \<and> snd (releaseLock e r d) = d"
    if "owned = []"
  proof -
    from that owned have "\<forall>l\<in>set (booking_locks d). \<not> owned_by r l"
      by (simp add: filter_empty_conv)
    then have "filter (\<lambda>l. \<not> owned_by r l) (booking_locks d) = booking_locks d"
      by simp
    with that owned assms(1,2) show ?thesis
      by (simp add: releaseLock_def Let_def)
  qed
  have "held_capacity (filter (owned_by r) (booking_locks d)) sid
        + held_capacity (filter (\<lambda>l. \<not> owned_by r l) (booking_locks d)) sid
        = held_capacity (booking_locks d) sid"
    by (rule held_capacity_split)
  then have held: "held_capacity (filter (\<lambda>l. \<not> owned_by r l) (booking_locks d)) sid
      = held_capacity (booking_locks d) sid - held_capacity owned sid"
    by (simp add: owned)
  have "snd (releaseLock e r d)
           = d\<lparr>booking_locks :=
                 filter (\<lambda>l. \<not> (lock_id l = rl_lock_id r
                                \<and> reserved_by_session_id l = value_of (release_session r)))
                   (booking_locks d)\<rparr>"
    by (simp add: st own)
  with ok none held st show ?thesis
    by (simp add: slot_available_def)
qed

lemma example_release_fields:
  "truthy (release_session example_release)"
  "value_of (release_session example_release) = ''A''"
  "rl_lock_id example_release = ''L1''"
  "truthy (release_session (example_release\<lparr>rl_session_id := Some ''B''\<rparr>))"
  "value_of (release_session (example_release\<lparr>rl_session_id := Some ''B''\<rparr>)) = ''B''"
  by (simp_all add: example_release_def release_session_def truthy_def value_of_def)

theorem releaseLock_owner_only_witness:
  "fst (releaseLock example_env example_release held_db) = LockReleased
   \<and> booking_locks (snd (releaseLock example_env example_release held_db)) = []
   \<and> held_capacity (booking_locks (snd (releaseLock example_env example_release held_db))) ''S1''
       = 0
   \<and> fst (releaseLock example_env (example_release\<lparr>rl_session_id := Some ''B''\<rparr>) held_db)
       = ReleaseRejected 404
   \<and> snd (releaseLock example_env (example_release\<lparr>rl_session_id := Some ''B''\<rparr>) held_db)
       = held_db"
proof -
  let ?other = "example_release\<lparr>rl_session_id := Some ''B''\<rparr>"
  have nt: "\<not> throws example_env Q_release"
    by (simp add: example_env_fields)
  have mine: "[example_lock] = filter (\<lambda>l. lock_id l = rl_lock_id example_release
                   \<and> reserved_by_session_id l = value_of (release_session example_release))
                 (booking_locks held_db)"
    by (simp add: example_release_fields held_db_tables example_db_tables example_lock_fields)
  have theirs: "[] = filter (\<lambda>l. lock_id l = rl_lock_id ?other
                   \<and> reserved_by_session_id l = value_of (release_session ?other))
                 (booking_locks held_db)"
    by (simp add: example_release_fields held_db_tables example_db_tables example_lock_fields)
  from releaseLock_owner_only [OF example_release_fields(1) nt mine, of "''S1''"]
  have a: "fst (releaseLock example_env example_release held_db) = LockReleased
   \<and> booking_locks (snd (releaseLock example_env example_release held_db)) = []
   \<and> held_capacity (booking_locks (snd (releaseLock example_env example_release held_db))) ''S1''
       = 0"
    by (simp add: example_release_fields held_db_tables example_db_tables example_lock_fields
        held_capacity_def)
  from releaseLock_owner_only [OF example_release_fields(4) nt theirs, of "''S1''"]
  have b: "fst (releaseLock example_env ?other held_db) = ReleaseRejected 404
     \<and> snd (releaseLock example_env ?other held_db) = held_db"
    by blast
  from a b show ?thesis
    by (simp add: held_capacity_def)
qed

text \<open>
  The claim as stated fails: session \<open>A\<close> releases its lock of two places on slot
  \<open>S1\<close>, and the slot row, which could take the two places back, still shows none
  available.
\<close>

theorem releaseLock_keeps_slot_capacity:
  "fst (releaseLock example_env example_release held_db) = LockReleased
   \<and> lock_slot_id example_lock = ''S1'' \<and> reserved_capacity example_lock = 2
   \<and> booking_locks held_db = [example_lock]
   \<and> booking_locks (snd (releaseLock example_env example_release held_db)) = []
   \<and> slot_available held_db ''S1'' = Some 0
   \<and> slot_available (snd (releaseLock example_env example_release held_db)) ''S1'' = Some 0"
  by (simp add: releaseLock_def Let_def owned_by_def example_release_fields example_env_fields
      held_db_tables example_db_tables example_lock_fields slot_available_def example_slot_def)

section \<open>Properties of the QR check-in\<close>

text \<open>What a request served alone does, in one piece.\<close>

lemma validate_qr_alone:
  "validate_qr e r d =
     (if \<not> truthy (qr_booking_id r) then (QrRejected 400 BookingIdRequired, d)
      else if \<not> truthy (qr_user_id r) then (QrRejected 401 AuthenticationRequired, d)
      else if throws e Q_user then (QrRejected 500 QrInternalError, d)
      else case filter (\<lambda>u. user_id u = value_of (qr_user_id r)) (users d) of
        [] \<Rightarrow> (QrRejected 404 UserNotFound, d)
      | user # _ \<Rightarrow>
          if role user \<noteq> ''cashier'' \<and> role user \<noteq> ''receptionist'' \<and> role user \<noteq> ''tenant_admin''
          then (QrRejected 403 RoleNotAllowed, d)
          else if throws e Q_booking then (QrRejected 500 QrInternalError, d)
          else case joined_booking d (value_of (qr_booking_id r)) of
            [] \<Rightarrow> (QrRejected 404 BookingNotFound, d)
          | booking # _ \<Rightarrow>
              if Some (booking_tenant_id booking) \<noteq> user_tenant_id user
              then (QrRejected 403 WrongTenant, d)
              else if qr_scanned booking then (QrRejected 409 AlreadyScanned, d)
              else if throws e Q_update then (QrRejected 500 QrInternalError, d)
              else (QrValidated (booking_id booking),
                    update_booking (value_of (qr_booking_id r))
                      (mark_scanned (now e) (value_of (qr_user_id r))) d))"
  by (simp add: validate_qr_def qr_begin_def split: list.splits)

lemma joined_booking_Cons:
  assumes "joined_booking d bid = b # rest"
  shows "b \<in> set (bookings d)" and "booking_id b = bid"
proof -
  from assms have "b \<in> set (joined_booking d bid)"
    by simp
  then show "b \<in> set (bookings d)" and "booking_id b = bid"
    by (simp_all add: joined_booking_def)
qed

lemma distinct_same_id:
  "distinct (map booking_id bs) \<Longrightarrow> a \<in> set bs \<Longrightarrow> b \<in> set bs
   \<Longrightarrow> booking_id a = booking_id b \<Longrightarrow> a = b"
  by (simp add: distinct_map inj_on_def)

lemma joined_booking_only:
  assumes "distinct (map booking_id (bookings d))" and "b \<in> set (bookings d)"
    and "joined_booking d (booking_id b) = b' # rest"
  shows "b' = b"
  using assms joined_booking_Cons [OF assms(3)] by (auto intro: distinct_same_id)

text \<open>A call either leaves the database alone or checks in one booking not yet scanned.\<close>

lemma validate_qr_cases:
  "snd (validate_qr e r d) = d \<and> (\<forall>bid. fst (validate_qr e r d) \<noteq> QrValidated bid)
   \<or> (\<exists>b0 rest. joined_booking d (value_of (qr_booking_id r)) = b0 # rest \<and> \<not> qr_scanned b0
         \<and> fst (validate_qr e r d) = QrValidated (booking_id b0)
         \<and> snd (validate_qr e r d)
             = update_booking (value_of (qr_booking_id r))
                 (mark_scanned (now e) (value_of (qr_user_id r))) d)"
  by (auto simp: validate_qr_alone split: list.splits)

lemma update_booking_ids: "map booking_id (bookings (update_booking bid (mark_scanned t u) d))
   = map booking_id (bookings d)"
  by (simp add: update_booking_def mark_scanned_def comp_def)

lemma validate_qr_ids:
  "map booking_id (bookings (snd (validate_qr e r d))) = map booking_id (bookings d)"
  using validate_qr_cases [of e r d] by (auto simp: update_booking_ids)

lemma validate_qr_keeps_scanned:
  assumes "distinct (map booking_id (bookings d))" and "b \<in> set (bookings d)" and "qr_scanned b"
  shows "b \<in> set (bookings (snd (validate_qr e r d)))"
    and "value_of (qr_booking_id r) = booking_id b \<Longrightarrow>
           snd (validate_qr e r d) = d \<and> (\<forall>bid. fst (validate_qr e r d) \<noteq> QrValidated bid)"
proof -
  from validate_qr_cases [of e r d]
  consider (same) "snd (validate_qr e r d) = d" "\<forall>bid. fst (validate_qr e r d) \<noteq> QrValidated bid"
    | (scan) b0 rest where "joined_booking d (value_of (qr_booking_id r)) = b0 # rest"
        "\<not> qr_scanned b0"
        "snd (validate_qr e r d)
             = update_booking (value_of (qr_booking_id r))
                 (mark_scanned (now e) (value_of (qr_user_id r))) d"
    by blast
  then have "b \<in> set (bookings (snd (validate_qr e r d)))
     \<and> (value_of (qr_booking_id r) = booking_id b \<longrightarrow>
           snd (validate_qr e r d) = d \<and> (\<forall>bid. fst (validate_qr e r d) \<noteq> QrValidated bid))"
  proof cases
    case same
    with assms(2) show ?thesis by simp
  next
    case scan
    have other: "booking_id b \<noteq> value_of (qr_booking_id r)"
    proof
      assume eq: "booking_id b = value_of (qr_booking_id r)"
      with scan(1) have "joined_booking d (booking_id b) = b0 # rest"
        by simp
      with assms(1,2) have "b0 = b"
        by (rule joined_booking_only)
      with scan(2) assms(3) show False
        by simp
    qed
    from assms(2) have "(if booking_id b = value_of (qr_booking_id r)
                         then mark_scanned (now e) (value_of (qr_user_id r)) b else b)
        \<in> set (bookings (update_booking (value_of (qr_booking_id r))
                 (mark_scanned (now e) (value_of (qr_user_id r))) d))"
      unfolding update_booking_def by (simp add: image_iff) blast
    with other scan(3) show ?thesis
      by auto
  qed
  then show "b \<in> set (bookings (snd (validate_qr e r d)))"
    and "value_of (qr_booking_id r) = booking_id b \<Longrightarrow>
           snd (validate_qr e r d) = d \<and> (\<forall>bid. fst (validate_qr e r d) \<noteq> QrValidated bid)"
    by simp_all
qed

lemma validate_qr_calls_keep_scanned:
  "distinct (map booking_id (bookings d)) \<Longrightarrow> b \<in> set (bookings d) \<Longrightarrow> qr_scanned b
   \<Longrightarrow> b \<in> set (bookings (fold (\<lambda>(e, r) d. snd (validate_qr e r d)) calls d))"
proof (induction calls arbitrary: d)
  case Nil
  then show ?case by simp
next
  case (Cons c calls)
  obtain e r where c: "c = (e, r)"
    by (cases c)
  from Cons.prems have "distinct (map booking_id (bookings (snd (validate_qr e r d))))"
    by (simp add: validate_qr_ids)
  moreover from Cons.prems have "b \<in> set (bookings (snd (validate_qr e r d)))"
    by (rule validate_qr_keeps_scanned(1))
  ultimately have "b \<in> set (bookings (fold (\<lambda>(e, r) d. snd (validate_qr e r d)) calls
                                    (snd (validate_qr e r d))))"
    using Cons.prems(3) by (rule Cons.IH)
  then show ?case
    by (simp add: c)
qed

lemma validate_qr_already_scanned:
  assumes "truthy (qr_booking_id r)" "truthy (qr_user_id r)"
    and "\<not> throws e Q_user" "\<not> throws e Q_booking"
    and "filter (\<lambda>u. user_id u = value_of (qr_user_id r)) (users d) = user # others"
    and "role user = ''cashier'' \<or> role user = ''receptionist'' \<or> role user = ''tenant_admin''"
    and "joined_booking d (value_of (qr_booking_id r)) = b # rest"
    and "user_tenant_id user = Some (booking_tenant_id b)"
    and "qr_scanned b"
  shows "validate_qr e r d = (QrRejected 409 AlreadyScanned, d)"
  using assms by (auto simp: validate_qr_alone)

lemma validate_qr_first_scan:
  assumes "fst (validate_qr e r d) = QrValidated bid"
  shows "\<exists>b0\<in>set (bookings d). booking_id b0 = bid \<and> bid = value_of (qr_booking_id r)
           \<and> \<not> qr_scanned b0
           \<and> bookings (snd (validate_qr e r d))
               = map (\<lambda>b. if booking_id b = bid
                           then mark_scanned (now e) (value_of (qr_user_id r)) b else b)
                   (bookings d)"
proof -
  from validate_qr_cases [of e r d] assms
  obtain b0 rest where j: "joined_booking d (value_of (qr_booking_id r)) = b0 # rest"
    and n: "\<not> qr_scanned b0" and f: "fst (validate_qr e r d) = QrValidated (booking_id b0)"
    and s: "snd (validate_qr e r d)
             = update_booking (value_of (qr_booking_id r))
                 (mark_scanned (now e) (value_of (qr_user_id r))) d"
    by auto
  from f assms have "booking_id b0 = bid"
    by simp
  with joined_booking_Cons [OF j] n s show ?thesis
    by (auto simp: update_booking_def)
qed


text \<open>
  Requests served alone, one after another, with booking identifiers unique, as the
  primary key has them: a booking whose \<open>qr_scanned\<close> flag is set is left exactly as it
  is by every such request and by every sequence of them; a request for such a booking
  never succeeds and changes nothing, and when it reaches the flag (the caller is a
  cashier, receptionist or tenant admin of the booking's tenant) it answers 409, already
  scanned. A request succeeds only for a booking that was not scanned, and then sets
  \<open>qr_scanned\<close>, the status \<open>checked_in\<close> and the scanned-at and scanned-by fields of that
  booking and of no other.
\<close>

lemma validate_qr_alone_once:
  assumes "distinct (map booking_id (bookings d))"
  shows "(\<forall>b\<in>set (bookings d). qr_scanned b \<longrightarrow>
            b \<in> set (bookings (snd (validate_qr e r d)))
          \<and> b \<in> set (bookings (fold (\<lambda>(e, r) d. snd (validate_qr e r d)) calls d))
          \<and> (value_of (qr_booking_id r) = booking_id b \<longrightarrow>
                snd (validate_qr e r d) = d
              \<and> (\<forall>bid. fst (validate_qr e r d) \<noteq> QrValidated bid)))
       \<and> (\<forall>user others b rest.
            truthy (qr_booking_id r) \<and> truthy (qr_user_id r)
            \<and> \<not> throws e Q_user \<and> \<not> throws e Q_booking
            \<and> filter (\<lambda>u. user_id u = value_of (qr_user_id r)) (users d) = user # others
            \<and> (role user = ''cashier'' \<or> role user = ''receptionist''
                \<or> role user = ''tenant_admin'')
            \<and> joined_booking d (value_of (qr_booking_id r)) = b # rest
            \<and> user_tenant_id user = Some (booking_tenant_id b)
            \<and> qr_scanned b
            \<longrightarrow> validate_qr e r d = (QrRejected 409 AlreadyScanned, d))
       \<and> (\<forall>bid. fst (validate_qr e r d) = QrValidated bid \<longrightarrow>
            (\<exists>b0\<in>set (bookings d). booking_id b0 = bid \<and> bid = value_of (qr_booking_id r)
               \<and> \<not> qr_scanned b0
               \<and> bookings (snd (validate_qr e r d))
                   = map (\<lambda>b. if booking_id b = bid
                               then mark_scanned (now e) (value_of (qr_user_id r)) b else b)
                       (bookings d)))
       \<and> qr_scanned (mark_scanned t u b') \<and> status (mark_scanned t u b') = ''checked_in''
       \<and> qr_scanned_at (mark_scanned t u b') = Some t
       \<and> qr_scanned_by_user_id (mark_scanned t u b') = Some u
       \<and> checked_in_at (mark_scanned t u b') = Some t
       \<and> checked_in_by_user_id (mark_scanned t u b') = Some u"
proof (intro conjI ballI allI impI)
  fix b
  assume b: "b \<in> set (bookings d)" "qr_scanned b"
  from assms b show "b \<in> set (bookings (snd (validate_qr e r d)))"
    by (rule validate_qr_keeps_scanned(1))
  from assms b show "b \<in> set (bookings (fold (\<lambda>(e, r) d. snd (validate_qr e r d)) calls d))"
    by (rule validate_qr_calls_keep_scanned)
  assume "value_of (qr_booking_id r) = booking_id b"
  with assms b have "snd (validate_qr e r d) = d
      \<and> (\<forall>bid. fst (validate_qr e r d) \<noteq> QrValidated bid)"
    by (rule validate_qr_keeps_scanned(2))
  then show "snd (validate_qr e r d) = d" and "fst (validate_qr e r d) \<noteq> QrValidated bid" for bid
    by simp_all
next
  fix user others b rest
  assume "truthy (qr_booking_id r) \<and> truthy (qr_user_id r)
            \<and> \<not> throws e Q_user \<and> \<not> throws e Q_booking
            \<and> filter (\<lambda>u. user_id u = value_of (qr_user_id r)) (users d) = user # others
            \<and> (role user = ''cashier'' \<or> role user = ''receptionist''
                \<or> role user = ''tenant_admin'')
            \<and> joined_booking d (value_of (qr_booking_id r)) = b # rest
            \<and> user_tenant_id user = Some (booking_tenant_id b)
            \<and> qr_scanned b"
  then show "validate_qr e r d = (QrRejected 409 AlreadyScanned, d)"
    using validate_qr_already_scanned [of r e d user others b rest] by blast
next
  fix bid
  assume "fst (validate_qr e r d) = QrValidated bid"
  from validate_qr_first_scan [OF this]
  show "\<exists>b0\<in>set (bookings d). booking_id b0 = bid \<and> bid = value_of (qr_booking_id r)
               \<and> \<not> qr_scanned b0
               \<and> bookings (snd (validate_qr e r d))
                   = map (\<lambda>b. if booking_id b = bid
                               then mark_scanned (now e) (value_of (qr_user_id r)) b else b)
                       (bookings d)"
    by simp
qed (simp_all add: mark_scanned_def)

lemma example_qr_fields:
  "truthy (qr_booking_id example_qr)" "truthy (qr_user_id example_qr)"
  "value_of (qr_booking_id example_qr) = ''B1''" "value_of (qr_user_id example_qr) = ''U1''"
  by (simp_all add: example_qr_def truthy_def value_of_def)

lemma example_booking_fields:
  "booking_id example_booking = ''B1''" "booking_tenant_id example_booking = ''T1''"
  "booking_service_id example_booking = ''V1''" "booking_slot_id example_booking = ''S1''"
  "qr_scanned example_booking = False" "payment_status example_booking = ''paid''"
  "zoho_invoice_id example_booking = None"
  by (simp_all add: example_booking_def)

lemma example_db_people:
  "users example_db = [\<lparr>user_id = ''U1'', user_tenant_id = Some ''T1'', role = ''cashier''\<rparr>]"
  "services example_db
     = [\<lparr>service_id = ''V1'', service_name = ''Tour'', service_name_ar = None\<rparr>]"
  by (simp_all add: example_db_def)

lemma example_joined: "joined_booking example_db ''B1'' = [example_booking]"
  by (simp add: joined_booking_def example_db_tables example_db_people example_booking_fields
      example_slot_def)

lemma example_first_scan:
  "validate_qr example_env example_qr example_db = (QrValidated ''B1'', scanned_db)"
  by (simp add: validate_qr_alone example_joined update_booking_def scanned_db_def
      example_qr_fields example_env_fields example_booking_fields example_db_tables
      example_db_people)

lemma validate_qr_alone_once_example:
  "validate_qr example_env example_qr example_db = (QrValidated ''B1'', scanned_db)
   \<and> qr_scanned (mark_scanned 60000 ''U1'' example_booking)
   \<and> validate_qr (example_env\<lparr>now := 90000\<rparr>) example_qr scanned_db
       = (QrRejected 409 AlreadyScanned, scanned_db)
   \<and> mark_scanned 60000 ''U1'' example_booking
       \<in> set (bookings (fold (\<lambda>(e, r) d. snd (validate_qr e r d))
                          [(example_env\<lparr>now := 90000\<rparr>, example_qr),
                           (example_env\<lparr>now := 95000\<rparr>, example_qr)] scanned_db))"
proof -
  let ?b = "mark_scanned 60000 ''U1'' example_booking"
  let ?u = "\<lparr>user_id = ''U1'', user_tenant_id = Some ''T1'', role = ''cashier''\<rparr>"
  let ?e = "example_env\<lparr>now := 90000\<rparr>"
  have b: "bookings scanned_db = [?b]" "booking_id ?b = ''B1''" "qr_scanned ?b"
    "booking_tenant_id ?b = ''T1''" "booking_service_id ?b = ''V1''" "booking_slot_id ?b = ''S1''"
    by (simp_all add: scanned_db_def mark_scanned_def example_booking_fields)
  have d: "distinct (map booking_id (bookings scanned_db))"
    by (simp add: b)
  have tables: "users scanned_db = users example_db" "services scanned_db = services example_db"
    "slots scanned_db = slots example_db"
    by (simp_all add: scanned_db_def)
  have u: "filter (\<lambda>u. user_id u = value_of (qr_user_id example_qr)) (users scanned_db) = ?u # []"
    by (simp add: tables example_db_people example_qr_fields)
  have j: "joined_booking scanned_db (value_of (qr_booking_id example_qr)) = ?b # []"
    by (simp add: joined_booking_def b tables example_db_people example_db_tables
        example_qr_fields example_slot_def)
  have t: "\<not> throws ?e Q_user" "\<not> throws ?e Q_booking"
    by (simp_all add: example_env_fields)
  note inst = validate_qr_alone_once [OF d, of ?e example_qr
      "[(example_env\<lparr>now := 90000\<rparr>, example_qr), (example_env\<lparr>now := 95000\<rparr>, example_qr)]"]
  from inst u j t b have "validate_qr ?e example_qr scanned_db
       = (QrRejected 409 AlreadyScanned, scanned_db)"
    by (simp add: example_qr_fields)
  moreover from inst b have "?b \<in> set (bookings (fold (\<lambda>(e, r) d. snd (validate_qr e r d))
                          [(example_env\<lparr>now := 90000\<rparr>, example_qr),
                           (example_env\<lparr>now := 95000\<rparr>, example_qr)] scanned_db))"
    by simp
  ultimately show ?thesis
    using example_first_scan b(3) by simp
qed

text \<open>A schedule that gives one request its three statements in a row serves it alone.\<close>

lemma run_schedule_alone:
  "run_schedule [0, 0, 0] [qr_client e r] d
   = ([(e, r, Responded (fst (validate_qr e r d)))], snd (validate_qr e r d))"
  by (simp add: qr_client_def validate_qr_def qr_begin_def split: list.splits)

text \<open>
  Claim C10. Every booking is checked in at most once by QR validation: only a first
  successful validation sets \<open>qr_scanned\<close>, the status and the scanned-at and scanned-by
  fields, and no second check-in happens. The handler does not keep this when two
  requests for the same booking overlap. Both requests read the booking before either
  has written (schedule \<open>0, 0, 1, 1\<close>), so both pass the already-scanned check; the first
  \<^verbatim>\<open>UPDATE\<close> checks the booking in at 60000, and the second one, which still holds
  the unscanned row it read, succeeds too and checks the booking in again, moving the
  scanned-at time to 60001. Served one after the other (schedule \<open>0, 0, 0, 1, 1, 1\<close>) the
  same two requests give one check-in and one 409.
\<close>

theorem validate_qr_interleaved_twice:
  "progress_of (fst (run_schedule [0, 0, 1, 1, 0] two_scans example_db))
     = [Responded (QrValidated ''B1''), BeforeUpdate example_booking]
   \<and> bookings (snd (run_schedule [0, 0, 1, 1, 0] two_scans example_db))
     = [mark_scanned 60000 ''U1'' example_booking]
   \<and> qr_scanned (mark_scanned 60000 ''U1'' example_booking)
   \<and> progress_of (fst (run_schedule [0, 0, 1, 1, 0, 1] two_scans example_db))
     = [Responded (QrValidated ''B1''), Responded (QrValidated ''B1'')]
   \<and> bookings (snd (run_schedule [0, 0, 1, 1, 0, 1] two_scans example_db))
     = [mark_scanned 60001 ''U1'' (mark_scanned 60000 ''U1'' example_booking)]
   \<and> qr_scanned_at (mark_scanned 60000 ''U1'' example_booking) = Some 60000
   \<and> qr_scanned_at (mark_scanned 60001 ''U1'' (mark_scanned 60000 ''U1'' example_booking))
     = Some 60001
   \<and> progress_of (fst (run_schedule [0, 0, 0, 1, 1, 1] two_scans example_db))
     = [Responded (QrValidated ''B1''), Responded (QrRejected 409 AlreadyScanned)]
   \<and> bookings (snd (run_schedule [0, 0, 0, 1, 1, 1] two_scans example_db))
     = [mark_scanned 60000 ''U1'' example_booking]"
  by code_simp

section \<open>Properties of the retry queue\<close>

lemma update_job_twice:
  assumes "\<And>k. job_id (f k) = job_id k"
  shows "update_job jid g (update_job jid f d) = update_job jid (g \<circ> f) d"
  using assms by (simp add: update_job_def comp_def)

lemma set_processing_id: "job_id (set_processing t k) = job_id k"
  by (simp add: set_processing_def)

lemma failed_attempt_id: "job_id (failed_attempt t job k) = job_id k"
  by (simp add: failed_attempt_def set_failed_def set_retry_def set_processing_def)

lemma update_job_bookings: "bookings (update_job jid f d) = bookings d"
  by (simp add: update_job_def)

lemma run_job_bookings: "bookings (run_job t g job d) = bookings d"
  by (simp add: run_job_def processReceiptJob_def on_error_def update_job_bookings Let_def
      split: list.splits receipt_result.splits)

lemma run_job_ids: "map job_id (queue_jobs (run_job t g job d)) = map job_id (queue_jobs d)"
  by (simp add: run_job_def processReceiptJob_def on_error_def update_job_def Let_def comp_def
      set_processing_def set_completed_def set_failed_def set_retry_def
      split: list.splits receipt_result.splits)

lemma run_job_fails:
  assumes "attempt_fails g d (payload_booking_id job)"
  shows "run_job t g job d = update_job (job_id job) (failed_attempt t job) d"
proof -
  have fa: "failed_attempt t job
      = (if payload_attempt job + 1 \<ge> MAX_RETRIES then set_failed t \<circ> set_processing t
         else set_retry (payload_attempt job + 1) \<circ> set_processing t)"
    by (simp add: fun_eq_iff failed_attempt_def)
  have err: "on_error t job (update_job (job_id job) (set_processing t) d)
             = update_job (job_id job) (failed_attempt t job) d"
    by (simp add: on_error_def Let_def update_job_twice set_processing_id fa)
  from assms show ?thesis
    by (auto simp: run_job_def processReceiptJob_def update_job_bookings attempt_fails_def err
        split: list.splits receipt_result.splits)
qed

text \<open>
  A job whose booking is not paid never reaches the collaborator: its first processing
  marks it failed, whatever its attempt counter.
\<close>

lemma run_job_unpaid:
  assumes "filter (\<lambda>b. booking_id b = payload_booking_id job) (bookings d) = booking # rest"
    and "\<not> truthy (zoho_invoice_id booking)" and "payment_status booking \<noteq> ''paid''"
  shows "run_job t g job d = update_job (job_id job) (set_failed t \<circ> set_processing t) d"
  using assms
  by (simp add: run_job_def processReceiptJob_def update_job_bookings update_job_twice
      set_processing_id)

lemma job_rows_update_other:
  assumes "\<And>k. job_id (f k) = job_id k" and "jid' \<noteq> jid"
  shows "job_rows (update_job jid' f d) jid = job_rows d jid"
proof -
  have "filter (\<lambda>k. job_id k = jid) (map (\<lambda>j. if job_id j = jid' then f j else j) xs)
        = filter (\<lambda>k. job_id k = jid) xs" for xs
    using assms by (induction xs) auto
  then show ?thesis
    by (simp add: job_rows_def update_job_def)
qed

lemma job_rows_update_same:
  assumes "\<And>k. job_id (f k) = job_id k"
  shows "job_rows (update_job jid f d) jid = map f (job_rows d jid)"
proof -
  have "filter (\<lambda>k. job_id k = jid) (map (\<lambda>j. if job_id j = jid then f j else j) xs)
        = map f (filter (\<lambda>k. job_id k = jid) xs)" for xs
    using assms by (induction xs) auto
  then show ?thesis
    by (simp add: job_rows_def update_job_def)
qed

lemma job_rows_run_job_other:
  assumes "job_id job \<noteq> jid"
  shows "job_rows (run_job t g job d) jid = job_rows d jid"
proof -
  have ids: "job_id (set_processing t k) = job_id k" "job_id (set_completed t k) = job_id k"
    "job_id (set_failed t k) = job_id k" "job_id (set_retry n k) = job_id k" for k n
    by (simp_all add: set_processing_def set_completed_def set_failed_def set_retry_def)
  show ?thesis
    using assms
    by (simp add: run_job_def processReceiptJob_def on_error_def Let_def
        job_rows_update_other ids split: list.splits receipt_result.splits)
qed


lemma fold_run_job_bookings: "bookings (fold (run_job t g) jobs d) = bookings d"
  by (induction jobs arbitrary: d) (simp_all add: run_job_bookings)

lemma fold_run_job_ids:
  "map job_id (queue_jobs (fold (run_job t g) jobs d)) = map job_id (queue_jobs d)"
  by (induction jobs arbitrary: d) (simp_all add: run_job_ids)

lemma fold_run_job_other:
  "jid \<notin> job_id ` set jobs \<Longrightarrow> job_rows (fold (run_job t g) jobs d) jid = job_rows d jid"
  by (induction jobs arbitrary: d) (auto simp: job_rows_run_job_other)

lemma attempt_fails_bookings:
  "bookings d' = bookings d \<Longrightarrow> attempt_fails g d' bid = attempt_fails g d bid"
  by (simp add: attempt_fails_def)

lemma fold_run_job_selected:
  assumes "distinct (map job_id jobs)" and "job \<in> set jobs"
    and "attempt_fails g d (payload_booking_id job)"
  shows "job_rows (fold (run_job t g) jobs d) (job_id job)
         = map (failed_attempt t job) (job_rows d (job_id job))"
proof -
  from assms(2) obtain xs ys where jobs: "jobs = xs @ job # ys"
    by (auto dest: split_list)
  with assms(1) have out: "job_id job \<notin> job_id ` set xs" "job_id job \<notin> job_id ` set ys"
    by auto
  let ?d0 = "fold (run_job t g) xs d"
  have "attempt_fails g ?d0 (payload_booking_id job) = attempt_fails g d (payload_booking_id job)"
    by (rule attempt_fails_bookings) (rule fold_run_job_bookings)
  with assms(3) have "attempt_fails g ?d0 (payload_booking_id job)"
    by simp
  then have "run_job t g job ?d0 = update_job (job_id job) (failed_attempt t job) ?d0"
    by (rule run_job_fails)
  then have "job_rows (run_job t g job ?d0) (job_id job)
             = map (failed_attempt t job) (job_rows ?d0 (job_id job))"
    by (simp add: job_rows_update_same failed_attempt_id)
  also have "job_rows ?d0 (job_id job) = job_rows d (job_id job)"
    using out(1) by (rule fold_run_job_other)
  finally show ?thesis
    using out(2) by (simp add: jobs fold_run_job_other)
qed

lemma pending_jobs_ready:
  assumes "k \<in> set (pending_jobs t d)"
  shows "k \<in> set (queue_jobs d)" and "ready t k"
proof -
  from assms have "k \<in> set (sort_key created_at (filter (ready t) (queue_jobs d)))"
    unfolding pending_jobs_def by (rule in_set_takeD)
  then show "k \<in> set (queue_jobs d)" and "ready t k"
    by simp_all
qed

lemma pending_jobs_distinct:
  assumes "distinct (map job_id (queue_jobs d))"
  shows "distinct (map job_id (pending_jobs t d))"
proof -
  from assms have "distinct (map job_id (filter (ready t) (queue_jobs d)))"
    by (rule distinct_map_filter)
  then have "distinct (map job_id (sort_key created_at (filter (ready t) (queue_jobs d))))"
    by (simp add: distinct_map)
  then have "distinct (take 10 (map job_id (sort_key created_at (filter (ready t) (queue_jobs d)))))"
    by (rule distinct_take)
  then show ?thesis
    by (simp add: pending_jobs_def take_map)
qed

lemma job_rows_unique:
  assumes "distinct (map job_id (queue_jobs d))" and "k \<in> set (queue_jobs d)"
  shows "job_rows d (job_id k) = [k]"
proof -
  have "distinct (map job_id xs) \<Longrightarrow> k \<in> set xs \<Longrightarrow> filter (\<lambda>x. job_id x = job_id k) xs = [k]"
    for xs
  proof (induction xs)
    case Nil
    then show ?case by simp
  next
    case (Cons x xs)
    show ?case
    proof (cases "x = k")
      case True
      with Cons.prems(1) have "\<forall>y\<in>set xs. job_id y \<noteq> job_id k"
        by (auto simp: image_iff)
      then have "filter (\<lambda>x. job_id x = job_id k) xs = []"
        by (simp add: filter_empty_conv)
      with True show ?thesis by simp
    next
      case False
      with Cons.prems have "k \<in> set xs" "job_id x \<noteq> job_id k"
        by auto
      with Cons show ?thesis by simp
    qed
  qed
  with assms show ?thesis
    by (simp add: job_rows_def)
qed

lemma job_rows_single:
  assumes "job_rows d jid = [k]"
  shows "k \<in> set (queue_jobs d)" and "job_id k = jid"
proof -
  from assms have "k \<in> set (job_rows d jid)"
    by simp
  then show "k \<in> set (queue_jobs d)" and "job_id k = jid"
    by (simp_all add: job_rows_def)
qed

lemma count_list_distinct: "distinct xs \<Longrightarrow> count_list xs x = (if x \<in> set xs then 1 else 0)"
  by (induction xs) auto

text \<open>One sweep, seen from a job whose attempts fail.\<close>

lemma sweep_failing_job:
  assumes "distinct (map job_id (queue_jobs d))" and "k \<in> set (queue_jobs d)"
    and "attempt_fails g d (payload_booking_id k)"
  shows "k \<in> set (pending_jobs t d) \<Longrightarrow>
           job_rows (snd (processZohoReceiptJobs t g d)) (job_id k) = [failed_attempt t k k]
           \<and> count_list (fst (processZohoReceiptJobs t g d)) (job_id k) = 1"
    and "k \<notin> set (pending_jobs t d) \<Longrightarrow>
           job_rows (snd (processZohoReceiptJobs t g d)) (job_id k) = [k]
           \<and> count_list (fst (processZohoReceiptJobs t g d)) (job_id k) = 0"
proof -
  have pd: "distinct (map job_id (pending_jobs t d))"
    using assms(1) by (rule pending_jobs_distinct)
  have rows: "job_rows d (job_id k) = [k]"
    using assms(1,2) by (rule job_rows_unique)
  have mem: "job_id k \<in> job_id ` set (pending_jobs t d) \<longleftrightarrow> k \<in> set (pending_jobs t d)"
  proof
    assume "job_id k \<in> job_id ` set (pending_jobs t d)"
    then obtain k' where k': "k' \<in> set (pending_jobs t d)" "job_id k' = job_id k"
      by auto
    from k'(1) have "k' \<in> set (queue_jobs d)"
      by (rule pending_jobs_ready)
    with assms(1,2) k'(2) have "k' = k"
      by (simp add: distinct_map inj_on_def)
    with k'(1) show "k \<in> set (pending_jobs t d)"
      by simp
  qed simp
  {
    assume sel: "k \<in> set (pending_jobs t d)"
    from pd sel assms(3)
    have "job_rows (fold (run_job t g) (pending_jobs t d) d) (job_id k)
          = map (failed_attempt t k) (job_rows d (job_id k))"
      by (rule fold_run_job_selected)
    moreover from pd sel have "count_list (map job_id (pending_jobs t d)) (job_id k) = 1"
      by (simp add: count_list_distinct)
    ultimately show "job_rows (snd (processZohoReceiptJobs t g d)) (job_id k)
             = [failed_attempt t k k]
           \<and> count_list (fst (processZohoReceiptJobs t g d)) (job_id k) = 1"
      by (simp add: processZohoReceiptJobs_def Let_def rows)
  }
  {
    assume "k \<notin> set (pending_jobs t d)"
    with mem have out: "job_id k \<notin> job_id ` set (pending_jobs t d)"
      by simp
    then have "job_rows (fold (run_job t g) (pending_jobs t d) d) (job_id k)
               = job_rows d (job_id k)"
      by (rule fold_run_job_other)
    moreover from out have "count_list (map job_id (pending_jobs t d)) (job_id k) = 0"
      by simp
    ultimately show "job_rows (snd (processZohoReceiptJobs t g d)) (job_id k) = [k]
           \<and> count_list (fst (processZohoReceiptJobs t g d)) (job_id k) = 0"
      by (simp add: processZohoReceiptJobs_def Let_def rows)
  }
qed


lemma sweep_ids:
  "map job_id (queue_jobs (snd (processZohoReceiptJobs t g d))) = map job_id (queue_jobs d)"
  by (simp add: processZohoReceiptJobs_def Let_def fold_run_job_ids)

lemma sweep_bookings: "bookings (snd (processZohoReceiptJobs t g d)) = bookings d"
  by (simp add: processZohoReceiptJobs_def Let_def fold_run_job_bookings)

lemma run_sweeps_Cons:
  "fst (run_sweeps ((t, g) # rest) d)
     = fst (processZohoReceiptJobs t g d) @ fst (run_sweeps rest (snd (processZohoReceiptJobs t g d)))"
  "snd (run_sweeps ((t, g) # rest) d) = snd (run_sweeps rest (snd (processZohoReceiptJobs t g d)))"
  by (simp_all add: split_beta Let_def)

declare run_sweeps.simps(2) [simp del]

lemma failed_attempt_row:
  "payload_booking_id (failed_attempt t k k) = payload_booking_id k"
  "payload_attempt k + 1 \<ge> MAX_RETRIES \<Longrightarrow> job_status (failed_attempt t k k) = ''failed''"
  "\<not> payload_attempt k + 1 \<ge> MAX_RETRIES \<Longrightarrow>
     job_status (failed_attempt t k k) = ''pending''
     \<and> payload_attempt (failed_attempt t k k) = payload_attempt k + 1
     \<and> attempts (failed_attempt t k k) = payload_attempt k + 1"
  by (simp_all add: failed_attempt_def set_failed_def set_retry_def set_processing_def)

lemma ready_pending: "ready t k \<Longrightarrow> job_status k = ''pending''"
  by (simp add: ready_def)

text \<open>
  The invariant of a job whose attempts all fail, over a run of the worker: after \<open>n\<close>
  attempts the job is pending with attempt counter \<open>n\<close> below the maximum, or it has
  failed and \<open>n\<close> is the maximum.
\<close>

lemma run_sweeps_failing:
  assumes "distinct (map job_id (queue_jobs d))" and "job_rows d jid = [k]"
    and "\<forall>r\<in>set runs. attempt_fails (snd r) d (payload_booking_id k)"
    and "job_status k = ''pending'' \<and> payload_attempt k = n \<and> n < MAX_RETRIES
         \<or> job_status k = ''failed'' \<and> n = MAX_RETRIES"
  shows "\<exists>k'. job_rows (snd (run_sweeps runs d)) jid = [k']
           \<and> (job_status k' = ''pending''
                 \<and> payload_attempt k' = n + count_list (fst (run_sweeps runs d)) jid
                 \<and> n + count_list (fst (run_sweeps runs d)) jid < MAX_RETRIES
               \<or> job_status k' = ''failed''
                 \<and> n + count_list (fst (run_sweeps runs d)) jid = MAX_RETRIES)"
  using assms
proof (induction runs arbitrary: d k n)
  case Nil
  then show ?case by simp
next
  case (Cons r runs)
  obtain t g where r: "r = (t, g)"
    by (cases r)
  let ?d1 = "snd (processZohoReceiptJobs t g d)"
  let ?c1 = "count_list (fst (processZohoReceiptJobs t g d)) jid"
  from Cons.prems(2) have k: "k \<in> set (queue_jobs d)" "job_id k = jid"
    by (rule job_rows_single)+
  from Cons.prems(3) have fails: "attempt_fails g d (payload_booking_id k)"
    by (simp add: r)
  have d1: "distinct (map job_id (queue_jobs ?d1))"
    using Cons.prems(1) by (simp add: sweep_ids)
  have step: "\<exists>k1. job_rows ?d1 jid = [k1] \<and> payload_booking_id k1 = payload_booking_id k
      \<and> (job_status k1 = ''pending'' \<and> payload_attempt k1 = n + ?c1 \<and> n + ?c1 < MAX_RETRIES
          \<or> job_status k1 = ''failed'' \<and> n + ?c1 = MAX_RETRIES)"
  proof (cases "k \<in> set (pending_jobs t d)")
    case True
    then have "job_status k = ''pending''"
      by (auto dest: pending_jobs_ready ready_pending)
    with Cons.prems(4) have n: "payload_attempt k = n" "n < MAX_RETRIES"
      by auto
    from sweep_failing_job(1) [OF Cons.prems(1) k(1) fails True]
    have rows: "job_rows ?d1 jid = [failed_attempt t k k]" and c: "?c1 = 1"
      by (simp_all add: k(2))
    show ?thesis
    proof (cases "payload_attempt k + 1 \<ge> MAX_RETRIES")
      case True
      with n have "n + 1 = MAX_RETRIES"
        by simp
      with True rows c show ?thesis
        by (simp add: failed_attempt_row)
    next
      case False
      with n rows c show ?thesis
        by (simp add: failed_attempt_row)
    qed
  next
    case False
    from sweep_failing_job(2) [OF Cons.prems(1) k(1) fails False]
    have "job_rows ?d1 jid = [k]" and "?c1 = 0"
      by (simp_all add: k(2))
    with Cons.prems(4) show ?thesis
      by simp
  qed
  then obtain k1 where k1: "job_rows ?d1 jid = [k1]"
    "payload_booking_id k1 = payload_booking_id k"
    "job_status k1 = ''pending'' \<and> payload_attempt k1 = n + ?c1 \<and> n + ?c1 < MAX_RETRIES
          \<or> job_status k1 = ''failed'' \<and> n + ?c1 = MAX_RETRIES"
    by blast
  have rest: "\<forall>r\<in>set runs. attempt_fails (snd r) ?d1 (payload_booking_id k1)"
  proof
    fix r' assume "r' \<in> set runs"
    with Cons.prems(3) have "attempt_fails (snd r') d (payload_booking_id k)"
      by simp
    moreover have "attempt_fails (snd r') ?d1 (payload_booking_id k)
                   = attempt_fails (snd r') d (payload_booking_id k)"
      by (rule attempt_fails_bookings) (rule sweep_bookings)
    ultimately show "attempt_fails (snd r') ?d1 (payload_booking_id k1)"
      by (simp add: k1(2))
  qed
  from Cons.IH [OF d1 k1(1) rest k1(3)]
  show ?case
    by (simp add: r run_sweeps_Cons add.assoc)
qed

lemma run_sweeps_failed_stays:
  assumes "distinct (map job_id (queue_jobs d))" and "j \<in> set (queue_jobs d)"
    and "job_status j = ''failed''"
  shows "count_list (fst (run_sweeps runs d)) (job_id j) = 0
         \<and> job_rows (snd (run_sweeps runs d)) (job_id j) = [j]"
  using assms(1,2)
proof (induction runs arbitrary: d)
  case Nil
  then show ?case
    by (simp add: job_rows_unique)
next
  case (Cons r runs)
  obtain t g where r: "r = (t, g)"
    by (cases r)
  let ?d1 = "snd (processZohoReceiptJobs t g d)"
  have "j \<notin> set (pending_jobs t d)"
  proof
    assume "j \<in> set (pending_jobs t d)"
    then have "ready t j"
      by (rule pending_jobs_ready)
    then have "job_status j = ''pending''"
      by (rule ready_pending)
    with assms(3) show False
      by simp
  qed
  moreover have "job_id k \<in> job_id ` set (pending_jobs t d) \<Longrightarrow> k \<in> set (pending_jobs t d)"
    if "k \<in> set (queue_jobs d)" for k
  proof -
    assume "job_id k \<in> job_id ` set (pending_jobs t d)"
    then obtain k' where k': "k' \<in> set (pending_jobs t d)" "job_id k' = job_id k"
      by auto
    from k'(1) have "k' \<in> set (queue_jobs d)"
      by (rule pending_jobs_ready)
    with Cons.prems(1) that k'(2) have "k' = k"
      by (simp add: distinct_map inj_on_def)
    with k'(1) show ?thesis
      by simp
  qed
  ultimately have out: "job_id j \<notin> job_id ` set (pending_jobs t d)"
    using Cons.prems(2) by blast
  then have rows: "job_rows ?d1 (job_id j) = [j]"
    using Cons.prems by (simp add: processZohoReceiptJobs_def Let_def fold_run_job_other
        job_rows_unique)
  from out have c: "count_list (fst (processZohoReceiptJobs t g d)) (job_id j) = 0"
    by (simp add: processZohoReceiptJobs_def Let_def)
  have "distinct (map job_id (queue_jobs ?d1))"
    using Cons.prems(1) by (simp add: sweep_ids)
  moreover from rows have "j \<in> set (queue_jobs ?d1)"
    by (rule job_rows_single)
  ultimately have "count_list (fst (run_sweeps runs ?d1)) (job_id j) = 0
         \<and> job_rows (snd (run_sweeps runs ?d1)) (job_id j) = [j]"
    by (rule Cons.IH)
  with c show ?case
    by (simp add: r run_sweeps_Cons)
qed


text \<open>
  Claim C7. With job identifiers unique, as the primary key has them, take a pending job
  with attempt counter 0 whose every attempt fails, and any run of the worker: the job is
  processed at most \<open>MAX_RETRIES\<close> = 3 times; its row is failed exactly when it has been
  processed 3 times, and before that it is pending with the number of attempts made as
  its counter. A row that is failed is processed by no sweep of any run and stays as it
  is, since a sweep selects pending rows only.
\<close>

theorem retry_exhaustion:
  assumes "distinct (map job_id (queue_jobs d))" and "j \<in> set (queue_jobs d)"
  shows "(job_status j = ''pending'' \<and> payload_attempt j = 0
          \<and> (\<forall>r\<in>set runs. attempt_fails (snd r) d (payload_booking_id j)) \<longrightarrow>
            count_list (fst (run_sweeps runs d)) (job_id j) \<le> MAX_RETRIES
          \<and> (\<exists>k. job_rows (snd (run_sweeps runs d)) (job_id j) = [k]
                \<and> (job_status k = ''failed''
                     \<longleftrightarrow> count_list (fst (run_sweeps runs d)) (job_id j) = MAX_RETRIES)
                \<and> (job_status k = ''pending''
                     \<longleftrightarrow> count_list (fst (run_sweeps runs d)) (job_id j) < MAX_RETRIES)
                \<and> (job_status k = ''pending''
                     \<longrightarrow> payload_attempt k = count_list (fst (run_sweeps runs d)) (job_id j))))
       \<and> (job_status j = ''failed'' \<longrightarrow>
            count_list (fst (run_sweeps runs d)) (job_id j) = 0
          \<and> job_rows (snd (run_sweeps runs d)) (job_id j) = [j])
       \<and> (\<forall>t k. k \<in> set (pending_jobs t d) \<longrightarrow> job_status k = ''pending'')
       \<and> MAX_RETRIES = 3"
proof (intro conjI impI allI)
  assume a: "job_status j = ''pending'' \<and> payload_attempt j = 0
          \<and> (\<forall>r\<in>set runs. attempt_fails (snd r) d (payload_booking_id j))"
  have rows: "job_rows d (job_id j) = [j]"
    using assms by (rule job_rows_unique)
  from a have fails: "\<forall>r\<in>set runs. attempt_fails (snd r) d (payload_booking_id j)"
    and start: "job_status j = ''pending'' \<and> payload_attempt j = 0 \<and> 0 < MAX_RETRIES
         \<or> job_status j = ''failed'' \<and> 0 = MAX_RETRIES"
    by (simp_all add: MAX_RETRIES_def)
  from run_sweeps_failing [OF assms(1) rows fails start]
  obtain k where k: "job_rows (snd (run_sweeps runs d)) (job_id j) = [k]"
    "job_status k = ''pending''
       \<and> payload_attempt k = count_list (fst (run_sweeps runs d)) (job_id j)
       \<and> count_list (fst (run_sweeps runs d)) (job_id j) < MAX_RETRIES
     \<or> job_status k = ''failed''
       \<and> count_list (fst (run_sweeps runs d)) (job_id j) = MAX_RETRIES"
    by auto
  from k(2) show "count_list (fst (run_sweeps runs d)) (job_id j) \<le> MAX_RETRIES"
    by auto
  from k show "\<exists>k. job_rows (snd (run_sweeps runs d)) (job_id j) = [k]
                \<and> (job_status k = ''failed''
                     \<longleftrightarrow> count_list (fst (run_sweeps runs d)) (job_id j) = MAX_RETRIES)
                \<and> (job_status k = ''pending''
                     \<longleftrightarrow> count_list (fst (run_sweeps runs d)) (job_id j) < MAX_RETRIES)
                \<and> (job_status k = ''pending''
                     \<longrightarrow> payload_attempt k = count_list (fst (run_sweeps runs d)) (job_id j))"
    by (intro exI [of _ k]) auto
next
  assume f: "job_status j = ''failed''"
  from run_sweeps_failed_stays [OF assms f, of runs]
  show "count_list (fst (run_sweeps runs d)) (job_id j) = 0"
    and "job_rows (snd (run_sweeps runs d)) (job_id j) = [j]"
    by simp_all
next
  fix t k
  assume "k \<in> set (pending_jobs t d)"
  then have "ready t k"
    by (rule pending_jobs_ready)
  then show "job_status k = ''pending''"
    by (rule ready_pending)
next
  show "MAX_RETRIES = 3"
    by (simp add: MAX_RETRIES_def)
qed

lemma example_run_log: "fst (run_sweeps example_runs example_db) = [''J1'', ''J1'', ''J1'']"
  by code_simp

lemma example_job_fields:
  "job_id example_job = ''J1''" "job_status example_job = ''pending''"
  "payload_attempt example_job = 0" "payload_booking_id example_job = ''B1''"
  by (simp_all add: example_job_def)

theorem retry_exhaustion_witness:
  "count_list (fst (run_sweeps example_runs example_db)) ''J1'' = 3
   \<and> (\<exists>k. job_rows (snd (run_sweeps example_runs example_db)) ''J1'' = [k]
          \<and> job_status k = ''failed'')"
proof -
  have d: "distinct (map job_id (queue_jobs example_db))"
    and j: "example_job \<in> set (queue_jobs example_db)"
    by (simp_all add: example_db_tables)
  have fails: "\<forall>r\<in>set example_runs. attempt_fails (snd r) example_db (payload_booking_id example_job)"
    by (simp add: example_runs_def attempt_fails_def collaborator_down_def example_job_fields
        example_db_tables example_booking_fields truthy_def)
  have c: "count_list (fst (run_sweeps example_runs example_db)) ''J1'' = 3"
    by (simp add: example_run_log)
  from retry_exhaustion [OF d j, of example_runs] fails c
  show ?thesis
    by (auto simp: example_job_fields MAX_RETRIES_def)
qed

end
